theory Spec2Isabelle
  imports Complex_Main
begin

section \<open>Python floats, as far as the program observes them\<close>

text \<open>
  The coordinates of \<^verbatim>\<open>main.py\<close> are Python floats. A finite float is modelled by the
  real number it denotes; the rounding of arithmetic to 53 bits is not modelled, and NaN
  and the infinities are left out. One float that is not a real number is kept, because
  the program can see it: the negative zero. \<^verbatim>\<open>round(-0.00001, 4)\<close> is \<^verbatim>\<open>-0.0\<close>, which
  compares equal to \<^verbatim>\<open>0.0\<close> (and hashes alike, so a set or dict holds one of the two),
  but is formatted as \<^verbatim>\<open>-0.0000\<close>.
\<close>

datatype pyfloat = NegZero | Num real

fun fval :: "pyfloat \<Rightarrow> real" where
  "fval NegZero = 0"
| "fval (Num v) = v"

fun sign_bit :: "pyfloat \<Rightarrow> bool" where
  "sign_bit NegZero = True"
| "sign_bit (Num v) = (v < 0)"

text \<open>Python's \<^verbatim>\<open>==\<close> on floats: the denoted numbers are compared.\<close>

definition py_eq :: "pyfloat \<Rightarrow> pyfloat \<Rightarrow> bool" where
  "py_eq a b = (fval a = fval b)"

text \<open>
  \<^verbatim>\<open>round(x, 4)\<close> and the format \<^verbatim>\<open>.4f\<close> both round the exact value to the nearest
  multiple of \<open>10\<^sup>-\<^sup>4\<close>, ties to even, and both keep the sign bit of their argument.
\<close>

definition round_half_even :: "real \<Rightarrow> int" where
  "round_half_even v =
     (let f = \<lfloor>v\<rfloor>; d = v - of_int f
      in if d < 1/2 then f else if 1/2 < d then f + 1 else if even f then f else f + 1)"

definition units4 :: "pyfloat \<Rightarrow> nat" where
  "units4 a = nat (round_half_even (\<bar>fval a\<bar> * 10000))"

definition round4 :: "pyfloat \<Rightarrow> pyfloat" where
  "round4 a =
     (let n = units4 a
      in if sign_bit a then (if n = 0 then NegZero else Num (- (real n / 10000)))
         else Num (real n / 10000))"

definition digit :: "nat \<Rightarrow> char" where
  "digit d = ''0123456789'' ! d"

function show_nat :: "nat \<Rightarrow> string" where
  "show_nat n = (if n < 10 then [digit n] else show_nat (n div 10) @ [digit (n mod 10)])"
  by pat_completeness auto
termination
  by (relation "measure id") auto

declare show_nat.simps [simp del]

definition fmt4 :: "pyfloat \<Rightarrow> string" where
  "fmt4 a =
     (let n = units4 a
      in (if sign_bit a then ''-'' else '''') @ show_nat (n div 10000) @ ''.'' @
         [digit (n div 1000 mod 10), digit (n div 100 mod 10), digit (n div 10 mod 10),
          digit (n mod 10)])"

text \<open>
  The cache key of lines 97, 139 and 266:
  \<^verbatim>\<open>f"{round(lat, 4):.4f},{round(lon, 4):.4f}"\<close>.
\<close>

definition cache_key :: "pyfloat \<Rightarrow> pyfloat \<Rightarrow> string" where
  "cache_key lat lon = fmt4 (round4 lat) @ '','' @ fmt4 (round4 lon)"

section \<open>Projection engine\<close>

datatype error = ValueError string | ZeroDivisionError string

definition radians :: "real \<Rightarrow> real" where
  "radians d = d * (pi / 180)"

definition degrees :: "real \<Rightarrow> real" where
  "degrees r = r * (180 / pi)"

text \<open>\<^verbatim>\<open>math.log\<close> raises \<^verbatim>\<open>ValueError\<close> outside its domain.\<close>

definition math_log :: "real \<Rightarrow> error + real" where
  "math_log v = (if v \<le> 0 then Inl (ValueError ''math domain error'') else Inr (ln v))"

definition R :: real where
  "R = 6371000 / 637.1"

definition mercator_projection :: "real \<Rightarrow> real \<Rightarrow> error + real \<times> real" where
  "mercator_projection lat lon =
     (let lat = max (min lat 89.9) (- 89.9)
      in case math_log (tan (pi / 4 + radians lat / 2)) of
           Inl e \<Rightarrow> Inl e
         | Inr l \<Rightarrow> Inr (R * radians lon, R * l))"

definition inverse_mercator :: "real \<Rightarrow> real \<Rightarrow> real \<times> real" where
  "inverse_mercator px py =
     (degrees (2 * arctan (exp (py / R)) - pi / 2), degrees (px / R))"


section \<open>Geocode cache\<close>

text \<open>
  The process state: the global dictionary \<^verbatim>\<open>cache\<close>, the files
  \<^verbatim>\<open>geo_cache.json\<close>, \<^verbatim>\<open>coordinates.csv\<close> and \<^verbatim>\<open>converted_coordinates.csv\<close>, the
  map that was rendered, and the requests sent to the reverse-geocoding service so far.
\<close>

type_synonym coord = "pyfloat \<times> pyfloat"

datatype cache_file = Absent | Corrupt | Snapshot "string \<rightharpoonup> string"

datatype csv_file = NoFile | Table bool "coord list"
  \<comment> \<open>\<open>Table h rows\<close>: \<open>h\<close> says whether a column name contains \<^verbatim>\<open>lat\<close> and one \<^verbatim>\<open>lon\<close>\<close>

record enriched =
  Latitude :: pyfloat
  Longitude :: pyfloat
  X :: real
  Y :: real
  Reversed_Lat :: real
  Reversed_Lon :: real
  Address :: string

record state =
  cache :: "string \<rightharpoonup> string"
  geo_cache_json :: cache_file
  coordinates_csv :: csv_file
  converted_coordinates_csv :: "enriched list option"
  geo_map_html :: "(real \<times> real) option"
  calls :: "coord list"

definition load_cache :: "state \<Rightarrow> state" where
  "load_cache s =
     (case geo_cache_json s of
        Snapshot m \<Rightarrow> s\<lparr>cache := m\<rparr>
      | Absent \<Rightarrow> s
      | Corrupt \<Rightarrow> s)"

text \<open>
  \<open>save_cache ok s\<close>: \<open>ok\<close> says whether the file can be written; a failure is caught and
  only printed.
\<close>

definition save_cache :: "bool \<Rightarrow> state \<Rightarrow> state" where
  "save_cache ok s = (if ok then s\<lparr>geo_cache_json := Snapshot (cache s)\<rparr> else s)"

definition save_to_csv :: "coord list \<Rightarrow> bool \<Rightarrow> state \<Rightarrow> bool \<times> state" where
  "save_to_csv coordinates ok s =
     (if ok then
        (True, s\<lparr>coordinates_csv :=
           (case coordinates_csv s of
              NoFile \<Rightarrow> Table True coordinates
            | Table h rows \<Rightarrow> Table h (rows @ coordinates))\<rparr>)
      else (False, s))"

section \<open>Geocoding pipeline\<close>

text \<open>
  What \<^verbatim>\<open>reverse((lat, lon))\<close> does: it returns a location with an address, returns
  \<^verbatim>\<open>None\<close>, or raises an exception \<^verbatim>\<open>e\<close> (kept as \<^verbatim>\<open>str(e)\<close>). The service is outside
  the program; it is a parameter, and its answer may depend on how many requests were
  sent before.
\<close>

datatype location = Found string | NotFound | Raised string

type_synonym geocoder = "nat \<Rightarrow> coord \<Rightarrow> location"

text \<open>Lines 95 to 99: the coordinates whose key is not in the cache.\<close>

fun new_coords_of :: "(string \<rightharpoonup> string) \<Rightarrow> coord list \<Rightarrow> (pyfloat \<times> pyfloat \<times> string) list" where
  "new_coords_of c [] = []"
| "new_coords_of c ((lat, lon) # coordinates) =
     (let cache_key = cache_key lat lon
      in if c cache_key = None then (lat, lon, cache_key) # new_coords_of c coordinates
         else new_coords_of c coordinates)"

text \<open>
  Lines 110 to 115. The call \<^verbatim>\<open>reverse((lat, lon))\<close> of line 112 is the request to the
  service: it is request number \<open>length sent\<close>, and it is added to the requests sent.
\<close>

definition process_coord :: "geocoder \<Rightarrow> pyfloat \<Rightarrow> pyfloat \<Rightarrow> string \<Rightarrow> coord list \<Rightarrow> (string \<times> string) \<times> coord list" where
  "process_coord reverse lat lon key sent =
     (let location = reverse (length sent) (lat, lon);
          sent = sent @ [(lat, lon)]
      in case location of
           Found address \<Rightarrow> ((key, address), sent)
         | NotFound \<Rightarrow> ((key, ''Not found''), sent)
         | Raised e \<Rightarrow> ((key, ''Error: '' @ e), sent))"

text \<open>
  Lines 117 to 125. The executor has one worker, so the requests go out one after the
  other in the order of \<^verbatim>\<open>new_coords\<close>, and each result is stored under its key. The
  progress messages of lines 128 to 133 are not modelled.
\<close>

fun resolve_all :: "geocoder \<Rightarrow> (pyfloat \<times> pyfloat \<times> string) list \<Rightarrow> state \<Rightarrow> state" where
  "resolve_all reverse [] s = s"
| "resolve_all reverse ((lat, lon, key) # new_coords) s =
     (let ((key, result), sent) = process_coord reverse lat lon key (calls s)
      in resolve_all reverse new_coords (s\<lparr>cache := (cache s)(key \<mapsto> result), calls := sent\<rparr>))"

text \<open>
  Lines 138 to 141. A dict keyed by a tuple of floats finds a key by \<^verbatim>\<open>==\<close>, so the
  returned dict is a map on the numbers the rounded floats denote; a later entry for an
  equal key overwrites the earlier one.
\<close>

definition rounded :: "coord \<Rightarrow> real \<times> real" where
  "rounded p = (fval (round4 (fst p)), fval (round4 (snd p)))"

definition cache_get :: "(string \<rightharpoonup> string) \<Rightarrow> string \<Rightarrow> string \<Rightarrow> string" where
  "cache_get c key dflt = (case c key of Some address \<Rightarrow> address | None \<Rightarrow> dflt)"

fun address_map_of :: "(string \<rightharpoonup> string) \<Rightarrow> coord list \<Rightarrow> (real \<times> real \<rightharpoonup> string) \<Rightarrow> (real \<times> real \<rightharpoonup> string)" where
  "address_map_of c [] m = m"
| "address_map_of c ((lat, lon) # coordinates) m =
     address_map_of c coordinates
       (m(rounded (lat, lon) \<mapsto> cache_get c (cache_key lat lon) ''Error''))"

definition batch_geocode :: "geocoder \<Rightarrow> bool \<Rightarrow> coord list \<Rightarrow> state \<Rightarrow> (real \<times> real \<rightharpoonup> string) \<times> state" where
  "batch_geocode reverse save_ok coordinates s =
     (let new_coords = new_coords_of (cache s) coordinates
      in if new_coords = [] then (Map.empty, s)
         else let s = resolve_all reverse new_coords s;
                  s = save_cache save_ok s
              in (address_map_of (cache s) coordinates Map.empty, s))"

section \<open>Conversion orchestrator\<close>

text \<open>
  What a run of \<^verbatim>\<open>main\<close> gets from outside: the two answers typed at the prompts, the
  list \<^verbatim>\<open>input_coordinates_interactively\<close> returned, whether the files can be written,
  the geocoding service, and the order in which Python lists a set.
\<close>

record env =
  add_new :: bool
  entered :: "coord list option"
  csv_append_ok :: bool
  lookup :: bool
  service :: geocoder
  save_ok_batch :: bool
  save_ok_exit :: bool
  set_position :: "coord \<Rightarrow> nat"

text \<open>
  Line 250: \<^verbatim>\<open>list({(round(lat, 4), round(lon, 4)) for lat, lon in coords})\<close>. A set keeps
  the element it has when an equal one is added: \<open>unique_coords_of\<close> collects the elements
  kept. The order in which Python lists them is not the order of insertion and is not
  specified by the language; the run takes it from outside, as a position for each
  element (\<open>set_position\<close>), and every order of the elements is the order of some
  positions.
\<close>

definition pair_eq :: "coord \<Rightarrow> coord \<Rightarrow> bool" where
  "pair_eq p q = (py_eq (fst p) (fst q) \<and> py_eq (snd p) (snd q))"

fun set_add :: "coord \<Rightarrow> coord list \<Rightarrow> coord list" where
  "set_add p [] = [p]"
| "set_add p (q # qs) = (if pair_eq q p then q # qs else q # set_add p qs)"

fun unique_coords_of :: "coord list \<Rightarrow> coord list \<Rightarrow> coord list" where
  "unique_coords_of [] acc = acc"
| "unique_coords_of ((lat, lon) # coords) acc =
     unique_coords_of coords (set_add (round4 lat, round4 lon) acc)"

definition unique_coords :: "(coord \<Rightarrow> nat) \<Rightarrow> coord list \<Rightarrow> coord list" where
  "unique_coords position coords = sort_key position (unique_coords_of coords [])"

text \<open>Lines 246 to 251.\<close>

definition geocode_step :: "env \<Rightarrow> coord list \<Rightarrow> state \<Rightarrow> state" where
  "geocode_step e coords s =
     (if lookup e then
        snd (batch_geocode (service e) (save_ok_batch e) (unique_coords (set_position e) coords) s)
      else s)"

text \<open>Lines 253 to 278: one record for each row that passes the range check.\<close>

fun output_data_of :: "(string \<rightharpoonup> string) \<Rightarrow> coord list \<Rightarrow> enriched list" where
  "output_data_of c [] = []"
| "output_data_of c ((lat, lon) # coords) =
     (if \<not> (- 90 \<le> fval lat \<and> fval lat \<le> 90) \<or> \<not> (- 180 \<le> fval lon \<and> fval lon \<le> 180)
      then output_data_of c coords
      else case mercator_projection (fval lat) (fval lon) of
             Inl e \<Rightarrow> output_data_of c coords
           | Inr (px, py) \<Rightarrow>
               (let (rev_lat, rev_lon) = inverse_mercator px py;
                    cache_key = cache_key lat lon;
                    address = cache_get c cache_key ''Address lookup disabled''
                in \<lparr>Latitude = lat, Longitude = lon, X = px, Y = py,
                     Reversed_Lat = rev_lat, Reversed_Lon = rev_lon,
                     Address = address\<rparr> # output_data_of c coords))"

text \<open>
  Lines 145 to 149 of \<^verbatim>\<open>create_optimized_map\<close>: the centre of the map is the mean of the
  records, and the division fails when there is none. The markers are not modelled.
\<close>

definition create_optimized_map :: "enriched list \<Rightarrow> error + real \<times> real" where
  "create_optimized_map data =
     (if length data = 0 then Inl (ZeroDivisionError ''division by zero'')
      else Inr (sum_list (map (\<lambda>r. fval (Latitude r)) data) / real (length data),
                sum_list (map (\<lambda>r. fval (Longitude r)) data) / real (length data)))"

text \<open>Lines 219 to 228.\<close>

definition add_coordinates :: "env \<Rightarrow> state \<Rightarrow> error option \<times> state" where
  "add_coordinates e s =
     (if add_new e then
        (case entered e of
           None \<Rightarrow> (None, s)
         | Some new_coords \<Rightarrow>
             if new_coords = [] then (None, s)
             else (case save_to_csv new_coords (csv_append_ok e) s of
                     (False, s') \<Rightarrow> (Some (ValueError ''Failed to save coordinates''), s')
                   | (True, s') \<Rightarrow> (None, s')))
      else (None, s))"

text \<open>Lines 232 to 244.\<close>

definition read_coordinates :: "state \<Rightarrow> error + coord list" where
  "read_coordinates s =
     (case coordinates_csv s of
        NoFile \<Rightarrow>
          Inl (ValueError (''Coordinates file not found. Please create '' @ [CHR 0x27] @
                 ''coordinates.csv'' @ [CHR 0x27] @ '' or use interactive input''))
      | Table h rows \<Rightarrow>
          if \<not> h then Inl (ValueError ''Latitude/Longitude columns not found'')
          else Inr rows)"

text \<open>
  The \<^verbatim>\<open>try\<close> block of \<^verbatim>\<open>main\<close>, lines 219 to 293. The first component is the exception
  that ended it, if any; line 296 prints it after \<^verbatim>\<open>ERROR:\<close>. Writing the export and
  the map, and opening the browser, are taken to succeed.
\<close>

definition main_body :: "env \<Rightarrow> state \<Rightarrow> error option \<times> state" where
  "main_body e s =
     (case add_coordinates e s of
        (Some err, s) \<Rightarrow> (Some err, s)
      | (None, s) \<Rightarrow>
          (let s = load_cache s
           in case read_coordinates s of
                Inl err \<Rightarrow> (Some err, s)
              | Inr coords \<Rightarrow>
                  (let s = geocode_step e coords s;
                       output_data = output_data_of (cache s) coords;
                       s = s\<lparr>converted_coordinates_csv := Some output_data\<rparr>
                   in case create_optimized_map output_data of
                        Inl err \<Rightarrow> (Some err, s)
                      | Inr m \<Rightarrow> (None, s\<lparr>geo_map_html := Some m\<rparr>))))"

text \<open>Lines 218 to 300: the \<^verbatim>\<open>finally\<close> clause saves the cache on every path.\<close>

definition main :: "env \<Rightarrow> state \<Rightarrow> error option \<times> state" where
  "main e s = (let (err, s) = main_body e s in (err, save_cache (save_ok_exit e) s))"

text \<open>A process starts with an empty \<^verbatim>\<open>cache\<close> (line 21) and the files as they are.\<close>

definition start :: "cache_file \<Rightarrow> csv_file \<Rightarrow> state" where
  "start cf csv =
     \<lparr>cache = Map.empty, geo_cache_json = cf, coordinates_csv = csv,
      converted_coordinates_csv = None, geo_map_html = None, calls = []\<rparr>"


section \<open>The projection stays away from the poles\<close>

text \<open>
  After the clamp the angle \<open>\<pi>/4 + radians lat / 2\<close> lies between \<open>\<pi>/3600\<close> and
  \<open>\<pi>/2 - \<pi>/3600\<close>, so its tangent lies between \<open>1/1800\<close> and \<open>1800\<close>: the logarithm is
  taken inside its domain and is smaller than \<open>11\<close> in absolute value.
\<close>

lemma R_pos: "0 < R" by (simp add: R_def)

lemma arctan_le_arg:
  fixes v :: real
  assumes "0 \<le> v"
  shows "arctan v \<le> v"
proof -
  have "(\<lambda>u. u - arctan u) 0 \<le> (\<lambda>u. u - arctan u) v"
  proof (rule DERIV_nonneg_imp_nondecreasing [OF assms])
    fix u :: real
    have "((\<lambda>u. u - arctan u) has_real_derivative (1 - inverse (1 + u\<^sup>2))) (at u)"
      by (auto intro!: derivative_eq_intros)
    moreover have "inverse (1 + u\<^sup>2) \<le> 1"
      by (simp add: inverse_le_1_iff)
    ultimately show "\<exists>d. ((\<lambda>u. u - arctan u) has_real_derivative d) (at u) \<and> 0 \<le> d"
      by (intro exI [of _ "1 - inverse (1 + u\<^sup>2)"]) simp
  qed
  then show ?thesis by simp
qed

lemma half_angle_range:
  assumes "- 89.9 \<le> c" "c \<le> 89.9"
  shows "pi / 3600 \<le> pi / 4 + radians c / 2" and "pi / 4 + radians c / 2 \<le> pi / 2 - pi / 3600"
proof -
  have e: "pi / 4 + radians c / 2 = pi * ((90 + c) / 360)"
    by (simp add: radians_def field_simps)
  have "pi * (1 / 3600) \<le> pi * ((90 + c) / 360)"
    using assms by (intro mult_left_mono) auto
  then show "pi / 3600 \<le> pi / 4 + radians c / 2" by (simp add: e)
  have "pi * ((90 + c) / 360) \<le> pi * (1799 / 3600)"
    using assms by (intro mult_left_mono) auto
  then show "pi / 4 + radians c / 2 \<le> pi / 2 - pi / 3600" by (simp add: e)
qed

lemma tan_lower:
  assumes "pi / 3600 \<le> a" "a < pi / 2"
  shows "1 / 1800 \<le> tan a"
proof -
  have "arctan (1 / 1800) \<le> 1 / 1800" by (rule arctan_le_arg) simp
  also have "\<dots> \<le> pi / 3600" using pi_ge_two by simp
  finally have "arctan (1 / 1800) \<le> a" using assms by simp
  moreover have "- (pi / 2) < arctan (1 / 1800)" by (rule arctan_lbound)
  ultimately have "tan (arctan (1 / 1800)) \<le> tan a" using assms by (intro tan_mono_le) auto
  then show ?thesis by (simp add: tan_arctan)
qed

lemma tan_upper:
  assumes "0 < a" "a \<le> pi / 2 - pi / 3600"
  shows "tan a \<le> 1800"
proof -
  have "1 / 1800 \<le> tan (pi / 2 - a)" using assms by (intro tan_lower) auto
  then have "1 / 1800 \<le> inverse (tan a)" by (simp add: tan_cot)
  moreover have "0 < tan a" using assms pi_gt_zero by (intro tan_gt_zero) auto
  ultimately show ?thesis by (simp add: field_simps)
qed

lemma ln_1800: "ln (1800::real) < 11"
proof -
  have "ln (1800::real) \<le> ln (2 ^ 11)" by (subst ln_le_cancel_iff) auto
  also have "\<dots> = 11 * ln 2" by (simp only: ln_realpow of_nat_numeral)
  also have "\<dots> < 11" using ln_2_less_1 by simp
  finally show ?thesis .
qed

lemma ln_tan_bound:
  fixes t :: real
  assumes "1 / 1800 \<le> t" "t \<le> 1800"
  shows "\<bar>ln t\<bar> < 11"
proof -
  have t: "0 < t" using assms by simp
  have "ln t \<le> ln 1800" using assms t by (subst ln_le_cancel_iff) auto
  moreover have "ln (1 / 1800) \<le> ln t" using assms t by (subst ln_le_cancel_iff) auto
  moreover have "ln (1 / 1800 :: real) = - ln 1800" by (simp add: ln_div)
  ultimately show ?thesis using ln_1800 by simp
qed


lemma projection_angle:
  fixes lat :: real
  defines "a \<equiv> pi / 4 + radians (max (min lat 89.9) (- 89.9)) / 2"
  shows "0 < a" and "a < pi / 2" and "1 / 1800 \<le> tan a" and "tan a \<le> 1800"
proof -
  have c: "- 89.9 \<le> max (min lat 89.9) (- 89.9)" "max (min lat 89.9) (- 89.9) \<le> 89.9"
    by auto
  have lo: "pi / 3600 \<le> a" and hi: "a \<le> pi / 2 - pi / 3600"
    unfolding a_def by (rule half_angle_range [OF c])+
  have p: "0 < pi / 3600" by simp
  show "0 < a" using lo p by linarith
  show "a < pi / 2" using hi p by linarith
  show "1 / 1800 \<le> tan a" using lo hi p by (intro tan_lower) linarith+
  show "tan a \<le> 1800" using lo hi p by (intro tan_upper) linarith+
qed

lemma mercator_projection_eq:
  "mercator_projection lat lon =
     Inr (R * radians lon, R * ln (tan (pi / 4 + radians (max (min lat 89.9) (- 89.9)) / 2)))"
  using projection_angle(3) [of lat]
  by (simp add: mercator_projection_def math_log_def Let_def)

lemma degrees_radians: "degrees (radians d) = d"
  by (simp add: degrees_def radians_def)

lemma inverse_mercator_projection:
  assumes "- 89.9 \<le> lat" "lat \<le> 89.9"
  shows "inverse_mercator (R * radians lon) (R * ln (tan (pi / 4 + radians lat / 2))) = (lat, lon)"
proof -
  have c: "max (min lat 89.9) (- 89.9) = lat" using assms by simp
  define a where "a = pi / 4 + radians lat / 2"
  have a: "0 < a" "a < pi / 2" "1 / 1800 \<le> tan a"
    using projection_angle(1-3) [of lat] unfolding c a_def by simp_all
  have t: "0 < tan a" using a(3) by simp
  have "arctan (exp (ln (tan a))) = a"
    using t a by (simp add: arctan_tan)
  then have "2 * arctan (exp (R * ln (tan a) / R)) - pi / 2 = radians lat"
    using R_pos by (simp add: a_def)
  then show ?thesis
    using R_pos by (simp add: inverse_mercator_def degrees_radians a_def [symmetric])
qed

text \<open>
  Claim C2. For every latitude and longitude, \<open>mercator_projection\<close> clamps the latitude
  to \<open>[-89.9, 89.9]\<close> and returns \<open>(R * radians lon, R * ln (tan (\<pi>/4 + radians lat' / 2)))\<close>
  for the clamped latitude \<open>lat'\<close>, with \<open>R = 6371000 / 637.1\<close>. The result for a latitude
  outside the range is the result for the clamped latitude; the logarithm never leaves
  its domain (no \<^verbatim>\<open>ValueError\<close>) and \<open>Y\<close> is bounded by \<open>11 * R\<close> whatever the latitude.
\<close>

theorem mercator_projection_clamped:
  fixes lat lon :: real
  defines "lat' \<equiv> max (min lat 89.9) (- 89.9)"
  shows "mercator_projection lat lon =
           Inr (R * radians lon, R * ln (tan (pi / 4 + radians lat' / 2)))
         \<and> R = 6371000 / 637.1
         \<and> - 89.9 \<le> lat' \<and> lat' \<le> 89.9
         \<and> 0 < tan (pi / 4 + radians lat' / 2)
         \<and> mercator_projection lat lon = mercator_projection lat' lon
         \<and> \<bar>R * ln (tan (pi / 4 + radians lat' / 2))\<bar> < 11 * R"
proof -
  have idem: "max (min lat' 89.9) (- 89.9) = lat'"
    by (simp add: lat'_def)
  have t: "1 / 1800 \<le> tan (pi / 4 + radians lat' / 2)" "tan (pi / 4 + radians lat' / 2) \<le> 1800"
    unfolding lat'_def by (rule projection_angle)+
  have "\<bar>ln (tan (pi / 4 + radians lat' / 2))\<bar> < 11"
    by (rule ln_tan_bound [OF t])
  then have "R * \<bar>ln (tan (pi / 4 + radians lat' / 2))\<bar> < R * 11"
    using R_pos by (simp only: mult_less_cancel_left_pos)
  then have b: "\<bar>R * ln (tan (pi / 4 + radians lat' / 2))\<bar> < 11 * R"
    using R_pos by (simp add: abs_mult mult.commute)
  have e: "mercator_projection lat lon = mercator_projection lat' lon"
    by (simp only: mercator_projection_eq idem lat'_def [symmetric])
  have p: "0 < tan (pi / 4 + radians lat' / 2)"
    using t(1) by simp
  show ?thesis
    using b e p by (simp add: mercator_projection_eq lat'_def [symmetric] R_def) (simp add: lat'_def)
qed

section \<open>Rounding, the scan and the resolution loop\<close>

lemma round_half_even_of_nat: "round_half_even (real n) = int n"
  by (simp add: round_half_even_def Let_def)

lemma units4_NegZero: "units4 NegZero = 0"
  by (simp add: units4_def round_half_even_def)

lemma units4_Num_units: "units4 (Num (real n / 10000)) = n" "units4 (Num (- (real n / 10000))) = n"
  by (simp_all add: units4_def round_half_even_of_nat)

lemma units4_round4: "units4 (round4 a) = units4 a"
  by (simp add: round4_def Let_def units4_NegZero units4_Num_units)

lemma sign_bit_round4: "sign_bit (round4 a) = sign_bit a"
  by (simp add: round4_def Let_def)

lemma round4_idem: "round4 (round4 a) = round4 a"
  by (simp add: round4_def [of "round4 a"] units4_round4 sign_bit_round4) (simp add: round4_def Let_def)

lemma fmt4_round4: "fmt4 (round4 (round4 a)) = fmt4 (round4 a)"
  by (simp add: round4_idem)

lemma cache_key_round4: "cache_key (round4 lat) (round4 lon) = cache_key lat lon"
  by (simp add: cache_key_def round4_idem)

lemma rounded_round4: "rounded (round4 lat, round4 lon) = rounded (lat, lon)"
  by (simp add: rounded_def round4_idem)

lemma pair_eq_rounded: "pair_eq (round4 a, round4 b) (round4 c, round4 d) \<longleftrightarrow> rounded (a, b) = rounded (c, d)"
  by (auto simp: pair_eq_def py_eq_def rounded_def)

lemma pair_eq_refl: "pair_eq p p" by (simp add: pair_eq_def py_eq_def)

subsection \<open>new_coords_of\<close>

lemma new_coords_of_eq:
  "new_coords_of c cs =
     map (\<lambda>(lat, lon). (lat, lon, cache_key lat lon))
       (filter (\<lambda>(lat, lon). c (cache_key lat lon) = None) cs)"
  by (induction c cs rule: new_coords_of.induct) (simp_all add: Let_def)

lemma new_coords_of_mem:
  "(lat, lon, k) \<in> set (new_coords_of c cs) \<longleftrightarrow>
     (lat, lon) \<in> set cs \<and> k = cache_key lat lon \<and> c k = None"
  by (auto simp: new_coords_of_eq)

lemma new_coords_of_nil:
  "new_coords_of c cs = [] \<longleftrightarrow> (\<forall>(lat, lon) \<in> set cs. c (cache_key lat lon) \<noteq> None)"
  by (auto simp: new_coords_of_eq filter_empty_conv)

subsection \<open>resolve_all\<close>

lemma process_coord_eq:
  "process_coord rv lat lon key sent =
     ((key, (case rv (length sent) (lat, lon) of
               Found address \<Rightarrow> address
             | NotFound \<Rightarrow> ''Not found''
             | Raised msg \<Rightarrow> ''Error: '' @ msg)),
      sent @ [(lat, lon)])"
  by (simp add: process_coord_def split: location.splits)

lemma resolve_all_calls:
  "calls (resolve_all rv new s) = calls s @ map (\<lambda>(lat, lon, key). (lat, lon)) new"
  by (induction rv new s rule: resolve_all.induct) (simp_all add: process_coord_eq)

lemma resolve_all_files:
  "geo_cache_json (resolve_all rv new s) = geo_cache_json s"
  "coordinates_csv (resolve_all rv new s) = coordinates_csv s"
  "converted_coordinates_csv (resolve_all rv new s) = converted_coordinates_csv s"
  "geo_map_html (resolve_all rv new s) = geo_map_html s"
  by (induction rv new s rule: resolve_all.induct) (simp_all add: process_coord_eq)

lemma resolve_all_other:
  "k \<notin> (\<lambda>(lat, lon, key). key) ` set new \<Longrightarrow> cache (resolve_all rv new s) k = cache s k"
  by (induction rv new s rule: resolve_all.induct) (auto simp: process_coord_eq)

lemma resolve_all_dom:
  "dom (cache (resolve_all rv new s)) = dom (cache s) \<union> (\<lambda>(lat, lon, key). key) ` set new"
  by (induction rv new s rule: resolve_all.induct) (auto simp: process_coord_eq)

lemma resolve_all_Cons:
  "resolve_all rv ((lat, lon, key) # new) s =
     resolve_all rv new
       (s\<lparr>cache := (cache s)(key \<mapsto> (case rv (length (calls s)) (lat, lon) of
                                                     Found address \<Rightarrow> address
                                                   | NotFound \<Rightarrow> ''Not found''
                                                   | Raised msg \<Rightarrow> ''Error: '' @ msg)),
          calls := calls s @ [(lat, lon)]\<rparr>)"
  by (simp add: process_coord_eq)

lemma resolve_all_value:
  assumes "i < length new" "new ! i = (lat, lon, key)"
    and "\<forall>j. i < j \<and> j < length new \<longrightarrow> snd (snd (new ! j)) \<noteq> key"
  shows "cache (resolve_all rv new s) key =
           Some (case rv (length (calls s) + i) (lat, lon) of
                   Found address \<Rightarrow> address
                 | NotFound \<Rightarrow> ''Not found''
                 | Raised msg \<Rightarrow> ''Error: '' @ msg)"
  using assms
proof (induction new arbitrary: i s)
  case Nil
  then show ?case by simp
next
  case (Cons n new)
  obtain lat0 lon0 key0 where n: "n = (lat0, lon0, key0)"
    by (cases n) auto
  let ?s = "s\<lparr>cache := (cache s)(key0 \<mapsto> (case rv (length (calls s)) (lat0, lon0) of
                                                          Found address \<Rightarrow> address
                                                        | NotFound \<Rightarrow> ''Not found''
                                                        | Raised msg \<Rightarrow> ''Error: '' @ msg)),
               calls := calls s @ [(lat0, lon0)]\<rparr>"
  have step: "resolve_all rv (n # new) s = resolve_all rv new ?s"
    unfolding n by (rule resolve_all_Cons)
  show ?case
  proof (cases i)
    case 0
    with Cons.prems n have eq: "lat0 = lat" "lon0 = lon" "key0 = key" by simp_all
    have "key \<notin> (\<lambda>(lat, lon, key). key) ` set new"
    proof
      assume "key \<in> (\<lambda>(lat, lon, key). key) ` set new"
      then obtain j where "j < length new" "snd (snd (new ! j)) = key"
        by (auto simp: in_set_conv_nth split: prod.splits)
      with Cons.prems(3) 0 show False by (auto dest!: spec [of _ "Suc j"])
    qed
    then have "cache (resolve_all rv new ?s) key = cache ?s key"
      by (rule resolve_all_other)
    then show ?thesis using 0 eq unfolding step by simp
  next
    case (Suc i')
    have "cache (resolve_all rv new ?s) key =
            Some (case rv (length (calls ?s) + i') (lat, lon) of
                    Found address \<Rightarrow> address
                  | NotFound \<Rightarrow> ''Not found''
                  | Raised msg \<Rightarrow> ''Error: '' @ msg)"
      using Cons.prems Suc by (intro Cons.IH) auto
    then show ?thesis using Suc unfolding step by simp
  qed
qed


subsection \<open>The returned dict\<close>

lemma address_map_of_other:
  "k \<notin> rounded ` set cs \<Longrightarrow> address_map_of c cs m k = m k"
  by (induction c cs m rule: address_map_of.induct) auto

lemma address_map_of_dom:
  "dom (address_map_of c cs m) = dom m \<union> rounded ` set cs"
proof (induction c cs m rule: address_map_of.induct)
  case (1 c m)
  show ?case by simp
next
  case (2 c lat lon coordinates m)
  show ?case
    unfolding address_map_of.simps "2.IH" by (simp only: dom_fun_upd) auto
qed

lemma address_map_of_const:
  assumes "\<forall>(lat, lon) \<in> set cs. rounded (lat, lon) = k \<longrightarrow> cache_get c (cache_key lat lon) ''Error'' = v"
    and "m k = Some v \<or> k \<in> rounded ` set cs"
  shows "address_map_of c cs m k = Some v"
  using assms
proof (induction c cs m rule: address_map_of.induct)
  case (1 c m)
  then show ?case by simp
next
  case (2 c lat lon coordinates m)
  let ?m = "m(rounded (lat, lon) \<mapsto> cache_get c (cache_key lat lon) ''Error'')"
  have "?m k = Some v \<or> k \<in> rounded ` set coordinates"
    using "2.prems" by auto
  moreover have "\<forall>(lat, lon) \<in> set coordinates.
      rounded (lat, lon) = k \<longrightarrow> cache_get c (cache_key lat lon) ''Error'' = v"
    using "2.prems"(1) by auto
  ultimately have "address_map_of c coordinates ?m k = Some v"
    by (rule "2.IH" [rotated])
  then show ?case by simp
qed

lemma address_map_of_value:
  assumes "(lat, lon) \<in> set cs"
    and "\<forall>(lat', lon') \<in> set cs. rounded (lat', lon') = rounded (lat, lon) \<longrightarrow>
           cache_key lat' lon' = cache_key lat lon"
  shows "address_map_of c cs m (rounded (lat, lon)) = Some (cache_get c (cache_key lat lon) ''Error'')"
proof (rule address_map_of_const)
  show "\<forall>(lat', lon') \<in> set cs. rounded (lat', lon') = rounded (lat, lon) \<longrightarrow>
          cache_get c (cache_key lat' lon') ''Error'' = cache_get c (cache_key lat lon) ''Error''"
    using assms(2) by auto
  show "m (rounded (lat, lon)) = Some (cache_get c (cache_key lat lon) ''Error'') \<or>
        rounded (lat, lon) \<in> rounded ` set cs"
    using assms(1) by auto
qed

subsection \<open>batch_geocode\<close>

lemma cache_save_cache: "cache (save_cache ok s) = cache s"
  by (simp add: save_cache_def)

lemma calls_save_cache: "calls (save_cache ok s) = calls s"
  by (simp add: save_cache_def)

lemma batch_geocode_cached:
  "new_coords_of (cache s) cs = [] \<Longrightarrow> batch_geocode rv ok cs s = (Map.empty, s)"
  by (simp add: batch_geocode_def)

lemma batch_geocode_new:
  "new_coords_of (cache s) cs \<noteq> [] \<Longrightarrow>
   batch_geocode rv ok cs s =
     (address_map_of (cache (resolve_all rv (new_coords_of (cache s) cs) s)) cs Map.empty,
      save_cache ok (resolve_all rv (new_coords_of (cache s) cs) s))"
  by (simp add: batch_geocode_def Let_def cache_save_cache)

lemma batch_geocode_cache:
  "cache (snd (batch_geocode rv ok cs s)) = cache (resolve_all rv (new_coords_of (cache s) cs) s)"
  by (cases "new_coords_of (cache s) cs = []")
     (simp_all add: batch_geocode_cached batch_geocode_new cache_save_cache)

lemma batch_geocode_calls:
  "calls (snd (batch_geocode rv ok cs s)) =
     calls s @ map (\<lambda>(lat, lon, key). (lat, lon)) (new_coords_of (cache s) cs)"
  by (cases "new_coords_of (cache s) cs = []")
     (simp_all add: batch_geocode_cached batch_geocode_new calls_save_cache resolve_all_calls)

lemma new_keys_uncached:
  "k \<in> (\<lambda>(lat, lon, key). key) ` set (new_coords_of c cs) \<Longrightarrow> c k = None"
  by (auto simp: new_coords_of_mem)

lemma batch_geocode_keeps:
  assumes "cache s k = Some a"
  shows "cache (snd (batch_geocode rv ok cs s)) k = Some a"
proof -
  have "k \<notin> (\<lambda>(lat, lon, key). key) ` set (new_coords_of (cache s) cs)"
  proof
    assume "k \<in> (\<lambda>(lat, lon, key). key) ` set (new_coords_of (cache s) cs)"
    then have "cache s k = None" by (rule new_keys_uncached)
    with assms show False by simp
  qed
  then show ?thesis
    using assms by (simp add: batch_geocode_cache resolve_all_other)
qed

lemma batch_geocode_map_le: "cache s \<subseteq>\<^sub>m cache (snd (batch_geocode rv ok cs s))"
  by (auto simp: map_le_def batch_geocode_keeps)

lemma batch_geocode_covers:
  assumes "(lat, lon) \<in> set cs"
  shows "cache (snd (batch_geocode rv ok cs s)) (cache_key lat lon) \<noteq> None"
proof (cases "cache s (cache_key lat lon)")
  case None
  then have "(lat, lon, cache_key lat lon) \<in> set (new_coords_of (cache s) cs)"
    using assms by (simp add: new_coords_of_mem)
  then have "cache_key lat lon \<in> (\<lambda>(lat, lon, key). key) ` set (new_coords_of (cache s) cs)"
    by force
  then have "cache_key lat lon \<in> dom (cache (resolve_all rv (new_coords_of (cache s) cs) s))"
    by (simp add: resolve_all_dom)
  then show ?thesis by (auto simp: batch_geocode_cache)
next
  case (Some a)
  then show ?thesis by (simp add: batch_geocode_keeps)
qed

text \<open>A key that was resolved holds the answer to one of the requests that were sent.\<close>

lemma resolve_all_resolved:
  assumes "k \<in> (\<lambda>(lat, lon, key). key) ` set new"
  shows "\<exists>i lat lon. i < length new \<and> new ! i = (lat, lon, k) \<and>
           cache (resolve_all rv new s) k =
             Some (case rv (length (calls s) + i) (lat, lon) of
                     Found address \<Rightarrow> address
                   | NotFound \<Rightarrow> ''Not found''
                   | Raised msg \<Rightarrow> ''Error: '' @ msg)"
proof -
  let ?P = "\<lambda>i. i < length new \<and> snd (snd (new ! i)) = k"
  from assms obtain lat0 lon0 where "(lat0, lon0, k) \<in> set new"
    by auto
  then obtain i0 where "i0 < length new" "new ! i0 = (lat0, lon0, k)"
    by (auto simp: in_set_conv_nth)
  then have "?P i0" by simp
  define i where "i = Max {i. ?P i}"
  have fin: "finite {i. ?P i}" by simp
  have "i \<in> {i. ?P i}" unfolding i_def using \<open>?P i0\<close> by (intro Max_in fin) auto
  then have i: "i < length new" "snd (snd (new ! i)) = k" by auto
  have last: "\<forall>j. i < j \<and> j < length new \<longrightarrow> snd (snd (new ! j)) \<noteq> k"
  proof (intro allI impI notI)
    fix j assume "i < j \<and> j < length new" "snd (snd (new ! j)) = k"
    then have "j \<le> i" unfolding i_def by (intro Max_ge fin) auto
    with \<open>i < j \<and> j < length new\<close> show False by simp
  qed
  obtain lat lon where n: "new ! i = (lat, lon, k)"
    using i(2) by (cases "new ! i") auto
  show ?thesis
    using resolve_all_value [OF i(1) n last] i(1) n by blast
qed

section \<open>Cache keys and rounded values\<close>

lemma digit_code:
  fixes d :: nat
  assumes "d < 10"
  shows "(of_char (digit d) :: nat) = 48 + d"
proof -
  from assms have "d = 0 \<or> d = 1 \<or> d = 2 \<or> d = 3 \<or> d = 4 \<or> d = 5 \<or> d = 6 \<or> d = 7 \<or> d = 8 \<or> d = 9"
    by arith
  then show ?thesis
    by (elim disjE) (simp_all add: digit_def)
qed

lemma digit_inj:
  assumes "d < 10" "d' < 10" "digit d = digit d'"
  shows "d = d'"
proof -
  have "(of_char (digit d) :: nat) = of_char (digit d')"
    by (simp only: assms(3))
  then have "48 + d = 48 + d'"
    by (simp only: digit_code [OF assms(1)] digit_code [OF assms(2)])
  then show ?thesis by simp
qed

lemma digit_not_punct:
  assumes "d < 10"
  shows "digit d \<noteq> CHR '',''" "digit d \<noteq> CHR ''-''" "digit d \<noteq> CHR ''.''"
proof -
  have c: "(of_char (digit d) :: nat) \<ge> 48"
    by (simp add: digit_code [OF assms])
  show "digit d \<noteq> CHR '',''"
  proof
    assume "digit d = CHR '',''"
    then have "(of_char (digit d) :: nat) = of_char (CHR '','')" by (simp only:)
    with c show False by simp
  qed
  show "digit d \<noteq> CHR ''-''"
  proof
    assume "digit d = CHR ''-''"
    then have "(of_char (digit d) :: nat) = of_char (CHR ''-'')" by (simp only:)
    with c show False by simp
  qed
  show "digit d \<noteq> CHR ''.''"
  proof
    assume "digit d = CHR ''.''"
    then have "(of_char (digit d) :: nat) = of_char (CHR ''.'')" by (simp only:)
    with c show False by simp
  qed
qed

text \<open>Reading a decimal numeral back.\<close>

lemma show_nat_digits: "c \<in> set (show_nat n) \<Longrightarrow> \<exists>d<10. c = digit d"
proof (induction n rule: show_nat.induct)
  case (1 n)
  show ?case
  proof (cases "n < 10")
    case True
    with "1.prems" show ?thesis by (auto simp: show_nat.simps [of n])
  next
    case False
    with "1.prems" have "c \<in> set (show_nat (n div 10)) \<or> c = digit (n mod 10)"
      by (auto simp: show_nat.simps [of n])
    then show ?thesis
    proof
      assume "c \<in> set (show_nat (n div 10))"
      then show ?thesis using "1.IH" False by simp
    next
      assume "c = digit (n mod 10)"
      then show ?thesis by (intro exI [of _ "n mod 10"]) simp
    qed
  qed
qed

lemma show_nat_value:
  "foldl (\<lambda>acc c. 10 * acc + (of_char c - 48)) 0 (show_nat n) = n"
proof (induction n rule: show_nat.induct)
  case (1 n)
  show ?case
  proof (cases "n < 10")
    case True
    then show ?thesis by (simp add: show_nat.simps [of n] digit_code)
  next
    case False
    have "n mod 10 < 10" by simp
    then have "(of_char (digit (n mod 10)) :: nat) - 48 = n mod 10"
      by (simp add: digit_code)
    then show ?thesis
      using "1.IH" False by (simp add: show_nat.simps [of n])
  qed
qed

lemma show_nat_inj:
  assumes "show_nat n = show_nat m"
  shows "n = m"
proof -
  have "n = foldl (\<lambda>acc c. 10 * acc + (of_char c - 48)) 0 (show_nat n)"
    by (simp only: show_nat_value)
  also have "\<dots> = foldl (\<lambda>acc c. 10 * acc + (of_char c - 48)) 0 (show_nat m)"
    by (simp only: assms)
  also have "\<dots> = m"
    by (simp only: show_nat_value)
  finally show ?thesis .
qed

lemma show_nat_not_Nil: "show_nat n \<noteq> []"
  by (subst show_nat.simps) simp

text \<open>The part of the format after the sign: the integer digits, a point and four decimals.\<close>

lemma decimal_expansion:
  fixes n :: nat
  shows "n = n div 10000 * 10000 + n div 1000 mod 10 * 1000 + n div 100 mod 10 * 100 +
             n div 10 mod 10 * 10 + n mod 10"
proof -
  have 1: "n = n div 10 * 10 + n mod 10" by simp
  have "n div 10 div 10 = n div 100" "n div 100 div 10 = n div 1000" "n div 1000 div 10 = n div 10000"
    by (simp_all add: div_mult2_eq [symmetric])
  then have 2: "n div 10 = n div 100 * 10 + n div 10 mod 10"
    and 3: "n div 100 = n div 1000 * 10 + n div 100 mod 10"
    and 4: "n div 1000 = n div 10000 * 10 + n div 1000 mod 10"
    by (metis div_mult_mod_eq)+
  show ?thesis
    by (subst 1, subst 2, subst 3, subst 4) (simp add: algebra_simps)
qed

lemma decimals_eq:
  fixes n m :: nat
  assumes "n div 10000 = m div 10000"
    and "n div 1000 mod 10 = m div 1000 mod 10" and "n div 100 mod 10 = m div 100 mod 10"
    and "n div 10 mod 10 = m div 10 mod 10" and "n mod 10 = m mod 10"
  shows "n = m"
  by (subst decimal_expansion [of n], subst decimal_expansion [of m]) (simp only: assms)

lemma unsigned_inj:
  assumes "show_nat (n div 10000) @ ''.'' @
             [digit (n div 1000 mod 10), digit (n div 100 mod 10), digit (n div 10 mod 10), digit (n mod 10)] =
           show_nat (m div 10000) @ ''.'' @
             [digit (m div 1000 mod 10), digit (m div 100 mod 10), digit (m div 10 mod 10), digit (m mod 10)]"
  shows "n = m"
proof -
  have len: "length (''.'' @ [digit (n div 1000 mod 10), digit (n div 100 mod 10), digit (n div 10 mod 10), digit (n mod 10)]) =
      length (''.'' @ [digit (m div 1000 mod 10), digit (m div 100 mod 10), digit (m div 10 mod 10), digit (m mod 10)])"
    by simp
  have "show_nat (n div 10000) = show_nat (m div 10000) \<and>
      ''.'' @ [digit (n div 1000 mod 10), digit (n div 100 mod 10), digit (n div 10 mod 10), digit (n mod 10)] =
      ''.'' @ [digit (m div 1000 mod 10), digit (m div 100 mod 10), digit (m div 10 mod 10), digit (m mod 10)]"
    using assms append_eq_append_conv [OF disjI2 [OF len]] by blast
  then have sq: "show_nat (n div 10000) = show_nat (m div 10000)"
    and d: "digit (n div 1000 mod 10) = digit (m div 1000 mod 10)"
      "digit (n div 100 mod 10) = digit (m div 100 mod 10)"
      "digit (n div 10 mod 10) = digit (m div 10 mod 10)"
      "digit (n mod 10) = digit (m mod 10)"
    by simp_all
  have q: "n div 10000 = m div 10000"
    using sq by (rule show_nat_inj)
  have d1: "n div 1000 mod 10 = m div 1000 mod 10"
    by (rule digit_inj [OF _ _ d(1)]) simp_all
  have d2: "n div 100 mod 10 = m div 100 mod 10"
    by (rule digit_inj [OF _ _ d(2)]) simp_all
  have d3: "n div 10 mod 10 = m div 10 mod 10"
    by (rule digit_inj [OF _ _ d(3)]) simp_all
  have d4: "n mod 10 = m mod 10"
    by (rule digit_inj [OF _ _ d(4)]) simp_all
  show ?thesis
    by (rule decimals_eq [OF q d1 d2 d3 d4])
qed

lemma fmt4_unfold:
  "fmt4 a = (if sign_bit a then [CHR ''-''] else []) @
     (show_nat (units4 a div 10000) @ ''.'' @
      [digit (units4 a div 1000 mod 10), digit (units4 a div 100 mod 10),
       digit (units4 a div 10 mod 10), digit (units4 a mod 10)])"
  by (simp add: fmt4_def Let_def)

lemma fmt4_chars:
  assumes "c \<in> set (fmt4 a)"
  shows "c = CHR ''-'' \<or> c = CHR ''.'' \<or> (\<exists>d<10. c = digit d)"
proof -
  have "c = CHR ''-'' \<or> c \<in> set (show_nat (units4 a div 10000)) \<or> c = CHR ''.'' \<or>
      c = digit (units4 a div 1000 mod 10) \<or> c = digit (units4 a div 100 mod 10) \<or>
      c = digit (units4 a div 10 mod 10) \<or> c = digit (units4 a mod 10)"
    using assms by (auto simp: fmt4_unfold split: if_splits)
  moreover have "\<exists>d<10. digit (k mod 10) = digit d" for k :: nat
    by (intro exI [of _ "k mod 10"]) simp
  ultimately show ?thesis
    by (auto dest: show_nat_digits)
qed

lemma fmt4_no_comma: "CHR '','' \<notin> set (fmt4 a)"
proof
  assume "CHR '','' \<in> set (fmt4 a)"
  then obtain d where "d < 10" "CHR '','' = digit d"
    using fmt4_chars [of "CHR '',''" a] by auto
  with digit_not_punct(1) [of d] show False by simp
qed

lemma unsigned_first:
  "\<exists>d<10. hd (show_nat q @ rest) = digit d"
proof -
  have "hd (show_nat q @ rest) \<in> set (show_nat q)"
    using show_nat_not_Nil [of q] by (cases "show_nat q") auto
  then show ?thesis by (rule show_nat_digits)
qed

lemma minus_not_unsigned: "CHR ''-'' # u \<noteq> show_nat q @ rest"
proof
  assume "CHR ''-'' # u = show_nat q @ rest"
  then have "hd (show_nat q @ rest) = CHR ''-''" by (metis list.sel(1))
  then obtain d where "d < 10" "CHR ''-'' = digit d"
    using unsigned_first [of q rest] by auto
  with digit_not_punct(2) [of d] show False by simp
qed

lemma fmt4_eq_iff: "fmt4 a = fmt4 b \<longleftrightarrow> sign_bit a = sign_bit b \<and> units4 a = units4 b"
proof
  assume eq: "fmt4 a = fmt4 b"
  have s: "sign_bit a = sign_bit b"
  proof (rule ccontr)
    assume "sign_bit a \<noteq> sign_bit b"
    then consider "sign_bit a" "\<not> sign_bit b" | "\<not> sign_bit a" "sign_bit b" by blast
    then show False
    proof cases
      case 1
      with eq show False
        using minus_not_unsigned by (simp add: fmt4_unfold)
    next
      case 2
      with eq [symmetric] show False
        using minus_not_unsigned by (simp add: fmt4_unfold)
    qed
  qed
  with eq have "units4 a = units4 b"
    by (intro unsigned_inj) (simp add: fmt4_unfold)
  with s show "sign_bit a = sign_bit b \<and> units4 a = units4 b" ..
next
  assume "sign_bit a = sign_bit b \<and> units4 a = units4 b"
  then show "fmt4 a = fmt4 b" by (simp add: fmt4_def)
qed

lemma round4_eq_iff: "round4 a = round4 b \<longleftrightarrow> sign_bit a = sign_bit b \<and> units4 a = units4 b"
proof
  assume "round4 a = round4 b"
  then have "sign_bit (round4 a) = sign_bit (round4 b)" "units4 (round4 a) = units4 (round4 b)"
    by simp_all
  then show "sign_bit a = sign_bit b \<and> units4 a = units4 b"
    by (simp add: sign_bit_round4 units4_round4)
next
  assume "sign_bit a = sign_bit b \<and> units4 a = units4 b"
  then show "round4 a = round4 b" by (simp add: round4_def)
qed

lemma split_at_comma:
  assumes "CHR '','' \<notin> set a" "CHR '','' \<notin> set a'" "a @ '','' @ b = a' @ '','' @ b'"
  shows "a = a' \<and> b = b'"
  using assms
proof (induction a arbitrary: a')
  case Nil
  then show ?case by (cases a') auto
next
  case (Cons c a)
  then show ?case by (cases a') auto
qed

lemma cache_key_eq_iff:
  "cache_key lat lon = cache_key lat' lon' \<longleftrightarrow> round4 lat = round4 lat' \<and> round4 lon = round4 lon'"
proof -
  have "cache_key lat lon = cache_key lat' lon' \<longleftrightarrow>
      fmt4 (round4 lat) = fmt4 (round4 lat') \<and> fmt4 (round4 lon) = fmt4 (round4 lon')"
    unfolding cache_key_def
    using split_at_comma [OF fmt4_no_comma fmt4_no_comma, of "round4 lat" "fmt4 (round4 lon)"
        "round4 lat'" "fmt4 (round4 lon')"]
    by auto
  then show ?thesis
    by (simp add: fmt4_eq_iff round4_eq_iff sign_bit_round4 units4_round4)
qed

lemma fval_round4:
  "fval (round4 a) = (if sign_bit a then - (real (units4 a) / 10000) else real (units4 a) / 10000)"
  by (simp add: round4_def Let_def)

lemma py_eq_round4:
  "py_eq (round4 a) (round4 b) \<longleftrightarrow>
     units4 a = units4 b \<and> (units4 a = 0 \<or> sign_bit a = sign_bit b)"
proof -
  have neg: "- real n = real m \<longleftrightarrow> n = 0 \<and> m = 0" for n m :: nat
  proof
    assume "- real n = real m"
    moreover have "- real n \<le> 0" "0 \<le> real m" by simp_all
    ultimately have "real n = 0" "real m = 0" by linarith+
    then show "n = 0 \<and> m = 0" by simp
  qed simp
  have eq: "real m = - real n \<longleftrightarrow> n = 0 \<and> m = 0" for n m :: nat
    using neg [of n m] by auto
  show ?thesis
    by (auto simp: py_eq_def fval_round4 neg eq)
qed

text \<open>
  Equal keys are equal rounded floats, sign of zero included; Python's \<^verbatim>\<open>==\<close>, which the
  set of line 250 uses, does not see that sign.
\<close>

lemma cache_key_eq_py:
  "cache_key lat lon = cache_key lat' lon' \<longleftrightarrow>
     py_eq (round4 lat) (round4 lat') \<and> py_eq (round4 lon) (round4 lon') \<and>
     (units4 lat = 0 \<longrightarrow> sign_bit lat = sign_bit lat') \<and>
     (units4 lon = 0 \<longrightarrow> sign_bit lon = sign_bit lon')"
  unfolding cache_key_eq_iff round4_eq_iff py_eq_round4 by blast

section \<open>The mapping returned for a batch\<close>

lemmas key_eval = cache_key_def fmt4_def round4_def units4_def round_half_even_def Let_def
  digit_def show_nat.simps rounded_def

text \<open>
  Claim C4 says that \<open>batch_geocode\<close> returns an entry for each input coordinate also when
  every coordinate is already cached. Line 101 returns the empty dict in that case: here
  the one coordinate is cached and the returned dict has no entry for it.
\<close>

theorem batch_geocode_all_cached_counterexample:
  "[(Num 1, Num 2)] \<noteq> [] \<and>
   cache_key (Num 1) (Num 2) = ''1.0000,2.0000'' \<and>
   fst (batch_geocode (\<lambda>n c. Found ''1 Main Street'') True [(Num 1, Num 2)]
          \<lparr>cache = [''1.0000,2.0000'' \<mapsto> ''1 Main Street''], geo_cache_json = Absent,
           coordinates_csv = NoFile, converted_coordinates_csv = None, geo_map_html = None,
           calls = []\<rparr>) (rounded (Num 1, Num 2)) = None"
  by (simp add: batch_geocode_def key_eval)

text \<open>
  Claim C4, amended. When at least one input coordinate is not cached yet, the returned
  dict has an entry for each input coordinate, rounded to 4 decimals. If the coordinates
  of the batch that round to the same pair also have the same cache key, that entry is
  the address read from the cache after the update: the address cached before the call
  if there was one, and otherwise the result of one of the requests sent for that key,
  which is the error string when the request failed.
\<close>

theorem batch_geocode_returns:
  assumes "new_coords_of (cache s) coordinates \<noteq> []"
    and "(lat, lon) \<in> set coordinates"
    and "batch_geocode reverse ok coordinates s = (m, s')"
  shows "m (rounded (lat, lon)) \<noteq> None \<and>
         ((\<forall>(lat', lon') \<in> set coordinates.
             rounded (lat', lon') = rounded (lat, lon) \<longrightarrow> cache_key lat' lon' = cache_key lat lon) \<longrightarrow>
          m (rounded (lat, lon)) = cache s' (cache_key lat lon) \<and>
          (\<forall>a. cache s (cache_key lat lon) = Some a \<longrightarrow> m (rounded (lat, lon)) = Some a) \<and>
          (cache s (cache_key lat lon) = None \<longrightarrow>
             (\<exists>i lat' lon'. i < length (new_coords_of (cache s) coordinates) \<and>
                new_coords_of (cache s) coordinates ! i = (lat', lon', cache_key lat lon) \<and>
                m (rounded (lat, lon)) =
                  Some (case reverse (length (calls s) + i) (lat', lon') of
                          Found address \<Rightarrow> address
                        | NotFound \<Rightarrow> ''Not found''
                        | Raised msg \<Rightarrow> ''Error: '' @ msg))))"
proof -
  let ?new = "new_coords_of (cache s) coordinates"
  let ?k = "cache_key lat lon"
  have m: "m = address_map_of (cache (resolve_all reverse ?new s)) coordinates Map.empty"
    and s': "s' = save_cache ok (resolve_all reverse ?new s)"
    using assms(3) by (simp_all add: batch_geocode_new [OF assms(1)])
  have c: "cache s' = cache (snd (batch_geocode reverse ok coordinates s))"
    using assms(3) by simp
  have c': "cache s' = cache (resolve_all reverse ?new s)"
    by (simp add: s' cache_save_cache)
  have "rounded (lat, lon) \<in> dom m"
    unfolding m address_map_of_dom using assms(2) by auto
  then have 1: "m (rounded (lat, lon)) \<noteq> None" by auto
  have cov: "cache s' ?k \<noteq> None"
    unfolding c by (rule batch_geocode_covers [OF assms(2)])
  {
    assume nc: "\<forall>(lat', lon') \<in> set coordinates.
             rounded (lat', lon') = rounded (lat, lon) \<longrightarrow> cache_key lat' lon' = cache_key lat lon"
    have "m (rounded (lat, lon)) = Some (cache_get (cache s') ?k ''Error'')"
      unfolding m c' by (rule address_map_of_value [OF assms(2) nc])
    then have 2: "m (rounded (lat, lon)) = cache s' ?k"
      using cov by (auto simp: cache_get_def)
    have 3: "\<forall>a. cache s ?k = Some a \<longrightarrow> m (rounded (lat, lon)) = Some a"
      unfolding 2 c by (auto intro: batch_geocode_keeps)
    have 4: "cache s ?k = None \<longrightarrow>
      (\<exists>i lat' lon'. i < length ?new \<and> ?new ! i = (lat', lon', ?k) \<and>
         m (rounded (lat, lon)) =
           Some (case reverse (length (calls s) + i) (lat', lon') of
                   Found address \<Rightarrow> address
                 | NotFound \<Rightarrow> ''Not found''
                 | Raised msg \<Rightarrow> ''Error: '' @ msg))"
    proof
      assume "cache s ?k = None"
      then have "(lat, lon, ?k) \<in> set ?new"
        using assms(2) by (simp add: new_coords_of_mem)
      then have "?k \<in> (\<lambda>(lat, lon, key). key) ` set ?new" by force
      from resolve_all_resolved [OF this, of reverse s]
      show "\<exists>i lat' lon'. i < length ?new \<and> ?new ! i = (lat', lon', ?k) \<and>
         m (rounded (lat, lon)) =
           Some (case reverse (length (calls s) + i) (lat', lon') of
                   Found address \<Rightarrow> address
                 | NotFound \<Rightarrow> ''Not found''
                 | Raised msg \<Rightarrow> ''Error: '' @ msg)"
        unfolding 2 c' by blast
    qed
    note 2 3 4
  }
  with 1 show ?thesis by blast
qed

text \<open>
  An instance: one uncached coordinate whose request times out. The returned dict holds
  the error string for it.
\<close>

theorem batch_geocode_returns_witness:
  "new_coords_of (cache (start Absent NoFile)) [(Num 1.00001, Num 2.00001)] \<noteq> [] \<and>
   (Num 1.00001, Num 2.00001) \<in> set [(Num 1.00001, Num 2.00001)] \<and>
   fst (batch_geocode (\<lambda>n c. Raised ''timed out'') True [(Num 1.00001, Num 2.00001)]
          (start Absent NoFile)) (rounded (Num 1.00001, Num 2.00001)) = Some ''Error: timed out''"
proof -
  let ?cs = "[(Num 1.00001, Num 2.00001)]"
  let ?rv = "\<lambda>(n::nat) (c::coord). Raised ''timed out''"
  have k: "cache_key (Num 1.00001) (Num 2.00001) = ''1.0000,2.0000''"
    by (simp add: key_eval)
  have h1: "new_coords_of (cache (start Absent NoFile)) ?cs \<noteq> []"
    by (simp add: start_def k)
  have h2: "(Num 1.00001, Num 2.00001) \<in> set ?cs" by simp
  have h3: "batch_geocode ?rv True ?cs (start Absent NoFile) =
      (fst (batch_geocode ?rv True ?cs (start Absent NoFile)),
       snd (batch_geocode ?rv True ?cs (start Absent NoFile)))" by simp
  from batch_geocode_returns [OF h1 h2 h3]
  have "fst (batch_geocode ?rv True ?cs (start Absent NoFile)) (rounded (Num 1.00001, Num 2.00001)) =
      Some ''Error: timed out''"
    by (auto simp: start_def)
  with h1 h2 show ?thesis by simp
qed

section \<open>Fault isolation\<close>

lemma batch_geocode_entry:
  assumes "new_coords_of (cache s) coordinates \<noteq> []"
    and "(lat, lon) \<in> set coordinates"
    and "\<forall>(lat', lon') \<in> set coordinates.
           rounded (lat', lon') = rounded (lat, lon) \<longrightarrow> cache_key lat' lon' = cache_key lat lon"
    and "batch_geocode reverse ok coordinates s = (m, s')"
  shows "m (rounded (lat, lon)) = cache s' (cache_key lat lon)"
proof -
  let ?s1 = "resolve_all reverse (new_coords_of (cache s) coordinates) s"
  have m: "m = address_map_of (cache ?s1) coordinates Map.empty" and s': "s' = save_cache ok ?s1"
    using assms(4) by (simp_all add: batch_geocode_new [OF assms(1)])
  have "cache s' (cache_key lat lon) \<noteq> None"
    using batch_geocode_covers [OF assms(2), of reverse ok s] assms(4) by simp
  moreover have "m (rounded (lat, lon)) = Some (cache_get (cache s') (cache_key lat lon) ''Error'')"
    unfolding m s' cache_save_cache by (rule address_map_of_value [OF assms(2,3)])
  ultimately show ?thesis by (auto simp: cache_get_def)
qed

text \<open>
  Claim C6 says that \<open>batch_geocode\<close> records the outcome of each request under the
  coordinate's key and returns correct addresses for the coordinates that succeeded.
  \<open>batch_geocode\<close> does not deduplicate its input: two coordinates of a batch can have the
  same key, and then both are requested and the later result overwrites the earlier one.
  In the first batch the request for \<open>(1.00001, 2)\<close> finds an address and the request for
  \<open>(1.00002, 2)\<close> raises; the key \<^verbatim>\<open>1.0000,2.0000\<close> and the returned dict hold the error
  string for both. In the second batch the keys differ by the sign of a rounded zero and
  the rounded pairs are equal: the cache holds the address found for
  \<open>(-0.00001, 2)\<close>, and the returned dict holds the error string of the other coordinate.
\<close>

theorem batch_geocode_shared_key_counterexample:
  "new_coords_of (cache (start Absent NoFile)) [(Num 1.00001, Num 2), (Num 1.00002, Num 2)] =
     [(Num 1.00001, Num 2, ''1.0000,2.0000''), (Num 1.00002, Num 2, ''1.0000,2.0000'')] \<and>
   calls (snd (batch_geocode (\<lambda>n c. if n = 0 then Found ''1 Main Street'' else Raised ''timed out'') True
       [(Num 1.00001, Num 2), (Num 1.00002, Num 2)] (start Absent NoFile))) =
     [(Num 1.00001, Num 2), (Num 1.00002, Num 2)] \<and>
   cache (snd (batch_geocode (\<lambda>n c. if n = 0 then Found ''1 Main Street'' else Raised ''timed out'') True
       [(Num 1.00001, Num 2), (Num 1.00002, Num 2)] (start Absent NoFile))) ''1.0000,2.0000'' =
     Some ''Error: timed out'' \<and>
   fst (batch_geocode (\<lambda>n c. if n = 0 then Found ''1 Main Street'' else Raised ''timed out'') True
       [(Num 1.00001, Num 2), (Num 1.00002, Num 2)] (start Absent NoFile))
     (rounded (Num 1.00001, Num 2)) = Some ''Error: timed out'' \<and>
   new_coords_of (cache (start Absent NoFile)) [(Num (- 0.00001), Num 2), (Num 0.00001, Num 2)] =
     [(Num (- 0.00001), Num 2, ''-0.0000,2.0000''), (Num 0.00001, Num 2, ''0.0000,2.0000'')] \<and>
   cache (snd (batch_geocode (\<lambda>n c. if n = 0 then Found ''1 Main Street'' else Raised ''timed out'') True
       [(Num (- 0.00001), Num 2), (Num 0.00001, Num 2)] (start Absent NoFile))) ''-0.0000,2.0000'' =
     Some ''1 Main Street'' \<and>
   fst (batch_geocode (\<lambda>n c. if n = 0 then Found ''1 Main Street'' else Raised ''timed out'') True
       [(Num (- 0.00001), Num 2), (Num 0.00001, Num 2)] (start Absent NoFile))
     (rounded (Num (- 0.00001), Num 2)) = Some ''Error: timed out''"
proof -
  let ?rv = "\<lambda>(n::nat) (c::coord). if n = 0 then Found ''1 Main Street'' else Raised ''timed out''"
  let ?s = "start Absent NoFile"
  let ?cs = "[(Num 1.00001, Num 2), (Num 1.00002, Num 2)]"
  let ?ds = "[(Num (- 0.00001), Num 2), (Num 0.00001, Num 2)]"
  have k: "cache_key (Num 1.00001) (Num 2) = ''1.0000,2.0000''"
    "cache_key (Num 1.00002) (Num 2) = ''1.0000,2.0000''"
    "cache_key (Num (- 0.00001)) (Num 2) = ''-0.0000,2.0000''"
    "cache_key (Num 0.00001) (Num 2) = ''0.0000,2.0000''"
    by (simp_all add: key_eval)
  have r: "rounded (Num 1.00001, Num 2) = (1, 2)" "rounded (Num 1.00002, Num 2) = (1, 2)"
    "rounded (Num (- 0.00001), Num 2) = (0, 2)" "rounded (Num 0.00001, Num 2) = (0, 2)"
    by (simp_all add: key_eval)
  have c: "cache ?s = Map.empty" "calls ?s = []"
    by (simp_all add: start_def)
  have n1: "new_coords_of (cache ?s) ?cs =
      [(Num 1.00001, Num 2, ''1.0000,2.0000''), (Num 1.00002, Num 2, ''1.0000,2.0000'')]"
    unfolding c new_coords_of.simps k Let_def by simp
  have n2: "new_coords_of (cache ?s) ?ds =
      [(Num (- 0.00001), Num 2, ''-0.0000,2.0000''), (Num 0.00001, Num 2, ''0.0000,2.0000'')]"
    unfolding c new_coords_of.simps k Let_def by simp
  have b1: "batch_geocode ?rv True ?cs ?s =
      (address_map_of (cache (save_cache True (resolve_all ?rv (new_coords_of (cache ?s) ?cs) ?s))) ?cs Map.empty,
       save_cache True (resolve_all ?rv (new_coords_of (cache ?s) ?cs) ?s))"
    unfolding batch_geocode_def Let_def n1 by simp
  have b2: "batch_geocode ?rv True ?ds ?s =
      (address_map_of (cache (save_cache True (resolve_all ?rv (new_coords_of (cache ?s) ?ds) ?s))) ?ds Map.empty,
       save_cache True (resolve_all ?rv (new_coords_of (cache ?s) ?ds) ?s))"
    unfolding batch_geocode_def Let_def n2 by simp
  have s1: "resolve_all ?rv (new_coords_of (cache ?s) ?cs) ?s =
      ?s\<lparr>cache := [''1.0000,2.0000'' \<mapsto> ''Error: timed out''],
         calls := [(Num 1.00001, Num 2), (Num 1.00002, Num 2)]\<rparr>"
    unfolding n1 resolve_all.simps process_coord_eq by (simp add: start_def)
  have s2: "resolve_all ?rv (new_coords_of (cache ?s) ?ds) ?s =
      ?s\<lparr>cache := [''-0.0000,2.0000'' \<mapsto> ''1 Main Street'', ''0.0000,2.0000'' \<mapsto> ''Error: timed out''],
         calls := [(Num (- 0.00001), Num 2), (Num 0.00001, Num 2)]\<rparr>"
    unfolding n2 resolve_all.simps process_coord_eq by (simp add: start_def)
  have 1: "calls (snd (batch_geocode ?rv True ?cs ?s)) = [(Num 1.00001, Num 2), (Num 1.00002, Num 2)]"
    unfolding b1 s1 by (simp add: save_cache_def)
  have 2: "cache (snd (batch_geocode ?rv True ?cs ?s)) ''1.0000,2.0000'' = Some ''Error: timed out''"
    unfolding b1 s1 by (simp add: save_cache_def)
  have 3: "fst (batch_geocode ?rv True ?cs ?s) (rounded (Num 1.00001, Num 2)) = Some ''Error: timed out''"
    unfolding b1 s1 fst_conv address_map_of.simps k r by (simp add: save_cache_def cache_get_def)
  have 4: "cache (snd (batch_geocode ?rv True ?ds ?s)) ''-0.0000,2.0000'' = Some ''1 Main Street''"
    unfolding b2 s2 by (simp add: save_cache_def)
  have 5: "fst (batch_geocode ?rv True ?ds ?s) (rounded (Num (- 0.00001), Num 2)) = Some ''Error: timed out''"
    unfolding b2 s2 fst_conv address_map_of.simps k r by (simp add: save_cache_def cache_get_def)
  from n1 1 2 3 n2 4 5 show ?thesis by simp
qed

text \<open>
  Claim C6, amended. Every uncached coordinate of the batch is requested, in order,
  whatever the other requests answered: the requests sent are exactly those for
  \<open>new_coords\<close>. If no later request of the batch writes the same key, the answer to
  request \<open>i\<close> of the batch is stored under its key: the address when one was found,
  \<^verbatim>\<open>Not found\<close> when the service returned nothing, and \<^verbatim>\<open>Error: \<close> followed by the message
  when it raised. If moreover the coordinates of the batch that round to the same pair
  share the key, the returned dict holds that string for the coordinate. \<open>batch_geocode\<close>
  has no error result.
\<close>

theorem batch_geocode_fault_isolation:
  assumes "i < length (new_coords_of (cache s) coordinates)"
    and "new_coords_of (cache s) coordinates ! i = (lat, lon, key)"
    and "\<forall>j. i < j \<and> j < length (new_coords_of (cache s) coordinates) \<longrightarrow>
           snd (snd (new_coords_of (cache s) coordinates ! j)) \<noteq> key"
    and "batch_geocode reverse ok coordinates s = (m, s')"
  shows "calls s' = calls s @ map (\<lambda>(lat, lon, key). (lat, lon)) (new_coords_of (cache s) coordinates) \<and>
         cache s' key =
           Some (case reverse (length (calls s) + i) (lat, lon) of
                   Found address \<Rightarrow> address
                 | NotFound \<Rightarrow> ''Not found''
                 | Raised e \<Rightarrow> ''Error: '' @ e) \<and>
         ((\<forall>(lat', lon') \<in> set coordinates.
             rounded (lat', lon') = rounded (lat, lon) \<longrightarrow> cache_key lat' lon' = key) \<longrightarrow>
          m (rounded (lat, lon)) = cache s' key)"
proof -
  let ?new = "new_coords_of (cache s) coordinates"
  have ne: "?new \<noteq> []" using assms(1) by auto
  have mem: "(lat, lon, key) \<in> set ?new"
    using assms(1,2) by (metis nth_mem)
  then have in_cs: "(lat, lon) \<in> set coordinates" and key: "key = cache_key lat lon"
    by (simp_all add: new_coords_of_mem)
  have s': "s' = snd (batch_geocode reverse ok coordinates s)"
    using assms(4) by simp
  have 1: "calls s' = calls s @ map (\<lambda>(lat, lon, key). (lat, lon)) ?new"
    unfolding s' by (rule batch_geocode_calls)
  have 2: "cache s' key =
      Some (case reverse (length (calls s) + i) (lat, lon) of
              Found address \<Rightarrow> address
            | NotFound \<Rightarrow> ''Not found''
            | Raised e \<Rightarrow> ''Error: '' @ e)"
    unfolding s' batch_geocode_cache resolve_all_value [OF assms(1-3)] ..
  have 3: "(\<forall>(lat', lon') \<in> set coordinates.
             rounded (lat', lon') = rounded (lat, lon) \<longrightarrow> cache_key lat' lon' = key) \<longrightarrow>
          m (rounded (lat, lon)) = cache s' key"
    using batch_geocode_entry [OF ne in_cs _ assms(4)] unfolding key by blast
  from 1 2 3 show ?thesis by blast
qed


text \<open>
  An instance: three uncached coordinates, the second request raises. All three requests
  are sent and the second key holds the error string.
\<close>

theorem batch_geocode_fault_isolation_witness:
  "(1::nat) < length (new_coords_of (cache (start Absent NoFile))
       [(Num 10, Num 20), (Num 30, Num 40), (Num 50, Num 60)]) \<and>
   new_coords_of (cache (start Absent NoFile))
       [(Num 10, Num 20), (Num 30, Num 40), (Num 50, Num 60)] ! 1 = (Num 30, Num 40, ''30.0000,40.0000'') \<and>
   cache (snd (batch_geocode (\<lambda>n c. if n = 1 then Raised ''timed out'' else Found ''1 Main Street'') True
       [(Num 10, Num 20), (Num 30, Num 40), (Num 50, Num 60)] (start Absent NoFile))) ''30.0000,40.0000''
     = Some ''Error: timed out'' \<and>
   calls (snd (batch_geocode (\<lambda>n c. if n = 1 then Raised ''timed out'' else Found ''1 Main Street'') True
       [(Num 10, Num 20), (Num 30, Num 40), (Num 50, Num 60)] (start Absent NoFile)))
     = [(Num 10, Num 20), (Num 30, Num 40), (Num 50, Num 60)]"
proof -
  let ?cs = "[(Num 10, Num 20), (Num 30, Num 40), (Num 50, Num 60)]"
  let ?rv = "\<lambda>(n::nat) (c::coord). if n = 1 then Raised ''timed out'' else Found ''1 Main Street''"
  let ?s = "start Absent NoFile"
  have k: "cache_key (Num 10) (Num 20) = ''10.0000,20.0000''"
    "cache_key (Num 30) (Num 40) = ''30.0000,40.0000''"
    "cache_key (Num 50) (Num 60) = ''50.0000,60.0000''"
    by (simp_all add: key_eval)
  have new: "new_coords_of (cache ?s) ?cs =
    [(Num 10, Num 20, ''10.0000,20.0000''), (Num 30, Num 40, ''30.0000,40.0000''),
     (Num 50, Num 60, ''50.0000,60.0000'')]"
    by (simp add: start_def k)
  have h1: "1 < length (new_coords_of (cache ?s) ?cs)"
    unfolding new by simp
  have h2: "new_coords_of (cache ?s) ?cs ! 1 = (Num 30, Num 40, ''30.0000,40.0000'')"
    unfolding new by simp
  have h3: "\<forall>j. 1 < j \<and> j < length (new_coords_of (cache ?s) ?cs) \<longrightarrow>
      snd (snd (new_coords_of (cache ?s) ?cs ! j)) \<noteq> ''30.0000,40.0000''"
  proof (intro allI impI)
    fix j :: nat
    assume "1 < j \<and> j < length (new_coords_of (cache ?s) ?cs)"
    then have "j = 2" unfolding new by simp
    then show "snd (snd (new_coords_of (cache ?s) ?cs ! j)) \<noteq> ''30.0000,40.0000''"
      unfolding new by simp
  qed
  have h4: "batch_geocode ?rv True ?cs ?s =
      (fst (batch_geocode ?rv True ?cs ?s), snd (batch_geocode ?rv True ?cs ?s))"
    by simp
  from batch_geocode_fault_isolation [OF h1 h2 h3 h4]
  have "cache (snd (batch_geocode ?rv True ?cs ?s)) ''30.0000,40.0000'' = Some ''Error: timed out''"
    and "calls (snd (batch_geocode ?rv True ?cs ?s)) = [(Num 10, Num 20), (Num 30, Num 40), (Num 50, Num 60)]"
    unfolding new by (simp_all add: start_def)
  with h1 h2 show ?thesis by simp
qed

section \<open>A run of main\<close>

lemma add_coordinates_keeps:
  assumes "add_coordinates e s = (a, s1)"
  shows "cache s1 = cache s" "geo_cache_json s1 = geo_cache_json s" "calls s1 = calls s"
    "converted_coordinates_csv s1 = converted_coordinates_csv s"
  using assms
  by (auto simp: add_coordinates_def save_to_csv_def split: if_splits option.splits)

lemma add_coordinates_error:
  assumes "add_coordinates e s = (Some err, s1)"
  shows "err = ValueError ''Failed to save coordinates''" "s1 = s"
  using assms
  by (auto simp: add_coordinates_def save_to_csv_def split: if_splits option.splits)

lemma load_cache_keeps:
  "geo_cache_json (load_cache s) = geo_cache_json s" "calls (load_cache s) = calls s"
  "coordinates_csv (load_cache s) = coordinates_csv s"
  "converted_coordinates_csv (load_cache s) = converted_coordinates_csv s"
  by (simp_all add: load_cache_def split: cache_file.splits)

lemma cache_load_cache:
  "cache (load_cache s) = (case geo_cache_json s of Snapshot m \<Rightarrow> m | Absent \<Rightarrow> cache s | Corrupt \<Rightarrow> cache s)"
  by (simp add: load_cache_def split: cache_file.splits)

lemma save_cache_keeps:
  "coordinates_csv (save_cache ok s) = coordinates_csv s"
  "converted_coordinates_csv (save_cache ok s) = converted_coordinates_csv s"
  by (simp_all add: save_cache_def)

lemma batch_geocode_keeps_files:
  "coordinates_csv (snd (batch_geocode rv ok cs s)) = coordinates_csv s"
  "converted_coordinates_csv (snd (batch_geocode rv ok cs s)) = converted_coordinates_csv s"
  by (cases "new_coords_of (cache s) cs = []";
      simp add: batch_geocode_cached batch_geocode_new save_cache_keeps resolve_all_files)+

lemma geocode_step_keeps:
  "coordinates_csv (geocode_step e coords s) = coordinates_csv s"
  "converted_coordinates_csv (geocode_step e coords s) = converted_coordinates_csv s"
  by (simp_all add: geocode_step_def batch_geocode_keeps_files)

lemma read_coordinates_Inr:
  "read_coordinates s = Inr rows \<longleftrightarrow> coordinates_csv s = Table True rows"
  by (auto simp: read_coordinates_def split: csv_file.splits)

text \<open>The runs that get as far as writing the export.\<close>

lemma main_body_export:
  assumes "main_body e s = (r, s')" and "converted_coordinates_csv s = None"
    and "converted_coordinates_csv s' = Some out"
  obtains s1 rows where "add_coordinates e s = (None, s1)" "coordinates_csv s1 = Table True rows"
    "cache s' = cache (geocode_step e rows (load_cache s1))"
    "calls s' = calls (geocode_step e rows (load_cache s1))"
    "geo_cache_json s' = geo_cache_json (geocode_step e rows (load_cache s1))"
    "coordinates_csv s' = Table True rows"
    "out = output_data_of (cache s') rows"
    "r = (if out = [] then Some (ZeroDivisionError ''division by zero'') else None)"
proof -
  obtain a s1 where a: "add_coordinates e s = (a, s1)"
    by (cases "add_coordinates e s") auto
  have conv1: "converted_coordinates_csv s1 = None"
    using add_coordinates_keeps(4) [OF a] assms(2) by simp
  have "a = None"
  proof (cases a)
    case (Some err)
    with a assms(1) have "s' = s1" by (simp add: main_body_def)
    with conv1 assms(3) show ?thesis by simp
  qed simp
  note a = a [unfolded this]
  let ?s2 = "load_cache s1"
  obtain rows where rows: "read_coordinates ?s2 = Inr rows"
  proof (cases "read_coordinates ?s2")
    case (Inl err)
    with a assms(1) have "s' = ?s2" by (simp add: main_body_def)
    with conv1 assms(3) show ?thesis by (simp add: load_cache_keeps)
  qed auto
  then have csv1: "coordinates_csv s1 = Table True rows"
    by (simp add: read_coordinates_Inr load_cache_keeps)
  let ?s3 = "geocode_step e rows ?s2"
  let ?out = "output_data_of (cache ?s3) rows"
  have body: "main_body e s =
      (case create_optimized_map ?out of
         Inl err \<Rightarrow> (Some err, ?s3\<lparr>converted_coordinates_csv := Some ?out\<rparr>)
       | Inr m \<Rightarrow> (None, ?s3\<lparr>converted_coordinates_csv := Some ?out, geo_map_html := Some m\<rparr>))"
    by (simp add: main_body_def a rows Let_def)
  have s': "cache s' = cache ?s3" "calls s' = calls ?s3" "geo_cache_json s' = geo_cache_json ?s3"
    "coordinates_csv s' = coordinates_csv ?s3" "converted_coordinates_csv s' = Some ?out"
    using assms(1) unfolding body by (auto split: sum.splits)
  have out: "out = output_data_of (cache s') rows"
    using s'(5) assms(3) by (simp add: s'(1))
  have r: "r = (if out = [] then Some (ZeroDivisionError ''division by zero'') else None)"
    using assms(1) unfolding body out s'(1)
    by (auto simp: create_optimized_map_def split: sum.splits if_splits)
  show ?thesis
    using that [OF a csv1 s'(1,2,3) _ out r] s'(4) csv1
    by (simp add: geocode_step_keeps load_cache_keeps)
qed

lemma main_eq:
  "main e s = (fst (main_body e s), save_cache (save_ok_exit e) (snd (main_body e s)))"
  by (simp add: main_def split: prod.splits)

lemma main_export:
  assumes "main e (start cf csv) = (r, s')" and "converted_coordinates_csv s' = Some out"
  obtains s1 rows where "add_coordinates e (start cf csv) = (None, s1)"
    "coordinates_csv s1 = Table True rows"
    "cache (load_cache s1) = (case cf of Snapshot m \<Rightarrow> m | Absent \<Rightarrow> Map.empty | Corrupt \<Rightarrow> Map.empty)"
    "calls (load_cache s1) = []"
    "cache s' = cache (geocode_step e rows (load_cache s1))"
    "calls s' = calls (geocode_step e rows (load_cache s1))"
    "coordinates_csv s' = Table True rows"
    "out = output_data_of (cache s') rows"
    "r = (if out = [] then Some (ZeroDivisionError ''division by zero'') else None)"
proof -
  let ?b = "main_body e (start cf csv)"
  have r: "r = fst ?b" and s': "s' = save_cache (save_ok_exit e) (snd ?b)"
    using assms(1) by (simp_all add: main_eq)
  have b: "main_body e (start cf csv) = (r, snd ?b)"
    by (simp add: r)
  have c0: "converted_coordinates_csv (start cf csv) = None"
    by (simp add: start_def)
  have c1: "converted_coordinates_csv (snd ?b) = Some out"
    using assms(2) by (simp add: s' save_cache_keeps)
  from main_body_export [OF b c0 c1] obtain s1 rows where
    *: "add_coordinates e (start cf csv) = (None, s1)" "coordinates_csv s1 = Table True rows"
    "cache (snd ?b) = cache (geocode_step e rows (load_cache s1))"
    "calls (snd ?b) = calls (geocode_step e rows (load_cache s1))"
    "coordinates_csv (snd ?b) = Table True rows"
    "out = output_data_of (cache (snd ?b)) rows"
    "r = (if out = [] then Some (ZeroDivisionError ''division by zero'') else None)"
    by metis
  have l: "cache (load_cache s1) = (case cf of Snapshot m \<Rightarrow> m | Absent \<Rightarrow> Map.empty | Corrupt \<Rightarrow> Map.empty)"
    using add_coordinates_keeps(1,2) [OF *(1)]
    by (simp add: cache_load_cache start_def split: cache_file.splits)
  have lc: "calls (load_cache s1) = []"
    using add_coordinates_keeps(3) [OF *(1)] by (simp add: load_cache_keeps start_def)
  show ?thesis
    using that [OF *(1,2) l lc] * by (simp add: s' cache_save_cache calls_save_cache save_cache_keeps)
qed

section \<open>Deduplication\<close>

lemma set_add_eq:
  "set_add p qs = (if \<exists>q \<in> set qs. pair_eq q p then qs else qs @ [p])"
  by (induction qs) auto

lemma set_add_has: "\<exists>q \<in> set (set_add p qs). pair_eq q p"
  by (auto simp: set_add_eq pair_eq_refl)

lemma set_add_keeps: "set qs \<subseteq> set (set_add p qs)"
  by (auto simp: set_add_eq)

lemma set_add_from: "set (set_add p qs) \<subseteq> insert p (set qs)"
  by (auto simp: set_add_eq)

lemma unique_coords_of_keeps: "set acc \<subseteq> set (unique_coords_of coords acc)"
proof (induction coords acc rule: unique_coords_of.induct)
  case (2 lat lon coords acc)
  then show ?case using set_add_keeps [of acc "(round4 lat, round4 lon)"] by auto
qed simp

lemma unique_coords_of_has:
  "(lat, lon) \<in> set coords \<Longrightarrow>
   \<exists>u \<in> set (unique_coords_of coords acc). pair_eq u (round4 lat, round4 lon)"
proof (induction coords acc rule: unique_coords_of.induct)
  case (2 lat0 lon0 coords acc)
  show ?case
  proof (cases "(lat, lon) \<in> set coords")
    case True
    then show ?thesis using "2.IH" by simp
  next
    case False
    with "2.prems" have eq: "lat0 = lat" "lon0 = lon" by auto
    obtain q where "q \<in> set (set_add (round4 lat, round4 lon) acc)" "pair_eq q (round4 lat, round4 lon)"
      using set_add_has by blast
    then show ?thesis
      using unique_coords_of_keeps [of "set_add (round4 lat, round4 lon) acc" coords]
      by (auto simp: eq)
  qed
qed simp

lemma unique_coords_of_from:
  "u \<in> set (unique_coords_of coords acc) \<Longrightarrow>
   u \<in> set acc \<or> (\<exists>(lat, lon) \<in> set coords. u = (round4 lat, round4 lon))"
proof (induction coords acc rule: unique_coords_of.induct)
  case (2 lat lon coords acc)
  then show ?case using set_add_from [of "(round4 lat, round4 lon)" acc] by auto
qed simp



lemma requests_of_new_coords:
  "map (\<lambda>(lat, lon, key). (lat, lon)) (new_coords_of c cs) =
     filter (\<lambda>(lat, lon). c (cache_key lat lon) = None) cs"
  by (induction c cs rule: new_coords_of.induct) (simp_all add: Let_def)

lemma set_unique_coords: "set (unique_coords position coords) = set (unique_coords_of coords [])"
  by (simp add: unique_coords_def)

lemma unique_coords_has:
  "(lat, lon) \<in> set coords \<Longrightarrow>
   \<exists>u \<in> set (unique_coords position coords). pair_eq u (round4 lat, round4 lon)"
  unfolding set_unique_coords by (rule unique_coords_of_has)

lemma unique_coords_from:
  assumes "u \<in> set (unique_coords position coords)"
  shows "\<exists>(lat, lon) \<in> set coords. u = (round4 lat, round4 lon)"
  using unique_coords_of_from [of u coords "[]"] assms unfolding set_unique_coords by simp


lemma geocode_step_calls:
  "calls (geocode_step e coords s) =
     calls s @ (if lookup e
                then filter (\<lambda>(lat, lon). cache s (cache_key lat lon) = None)
                       (unique_coords (set_position e) coords)
                else [])"
  by (simp add: geocode_step_def batch_geocode_calls requests_of_new_coords)

lemma geocode_step_cache:
  "lookup e \<Longrightarrow> cache (geocode_step e coords s) =
     cache (snd (batch_geocode (service e) (save_ok_batch e) (unique_coords (set_position e) coords) s))"
  "\<not> lookup e \<Longrightarrow> cache (geocode_step e coords s) = cache s"
  by (simp_all add: geocode_step_def)

lemma geocode_step_map_le: "cache s \<subseteq>\<^sub>m cache (geocode_step e coords s)"
  by (cases "lookup e") (simp_all add: geocode_step_cache batch_geocode_map_le)




lemma unique_coords_fixed:
  assumes "u \<in> set (unique_coords position coords)"
  shows "round4 (fst u) = fst u" "round4 (snd u) = snd u"
  using unique_coords_from [OF assms] by (auto simp: round4_idem)

lemma unique_coords_key_inj:
  assumes "u \<in> set (unique_coords position coords)" "v \<in> set (unique_coords position coords)"
    and "cache_key (fst u) (snd u) = cache_key (fst v) (snd v)"
  shows "u = v"
proof -
  from assms(3) have "round4 (fst u) = round4 (fst v)" "round4 (snd u) = round4 (snd v)"
    by (simp_all add: cache_key_eq_iff)
  then have "fst u = fst v" "snd u = snd v"
    by (simp_all only: unique_coords_fixed [OF assms(1)] unique_coords_fixed [OF assms(2)])
  then show ?thesis by (rule prod_eqI)
qed

text \<open>
  With lookup enabled, an element of the deduplicated list whose key is not cached is
  requested, and the answer to that request is what the cache holds under its key.
\<close>

lemma geocode_step_request:
  assumes "lookup e" and "calls s = []"
    and "u \<in> set (unique_coords (set_position e) coords)"
    and "cache s (cache_key (fst u) (snd u)) = None"
  shows "\<exists>n<length (calls (geocode_step e coords s)).
           calls (geocode_step e coords s) ! n = u \<and>
           cache (geocode_step e coords s) (cache_key (fst u) (snd u)) =
             Some (case service e n u of
                     Found address \<Rightarrow> address
                   | NotFound \<Rightarrow> ''Not found''
                   | Raised msg \<Rightarrow> ''Error: '' @ msg)"
proof -
  let ?U = "unique_coords (set_position e) coords"
  let ?new = "new_coords_of (cache s) ?U"
  let ?k = "cache_key (fst u) (snd u)"
  have calls: "calls (geocode_step e coords s) = map (\<lambda>(lat, lon, key). (lat, lon)) ?new"
    using assms(1,2) by (simp add: geocode_step_def batch_geocode_calls)
  have cache: "cache (geocode_step e coords s) = cache (resolve_all (service e) ?new s)"
    using assms(1) by (simp add: geocode_step_cache batch_geocode_cache)
  have "(fst u, snd u, ?k) \<in> set ?new"
    using assms(3,4) by (simp add: new_coords_of_mem)
  then have "?k \<in> (\<lambda>(lat, lon, key). key) ` set ?new" by force
  from resolve_all_resolved [OF this, of "service e" s] obtain i la lo where
    i: "i < length ?new" "?new ! i = (la, lo, ?k)"
    and v: "cache (resolve_all (service e) ?new s) ?k =
      Some (case service e (length (calls s) + i) (la, lo) of
              Found address \<Rightarrow> address
            | NotFound \<Rightarrow> ''Not found''
            | Raised msg \<Rightarrow> ''Error: '' @ msg)"
    by blast
  have "(la, lo, ?k) \<in> set ?new"
    using i by (metis nth_mem)
  then have "(la, lo) \<in> set ?U" "cache_key la lo = ?k"
    by (simp_all add: new_coords_of_mem)
  then have u: "(la, lo) = u"
    using unique_coords_key_inj [of "(la, lo)" "set_position e" coords u] assms(3) by simp
  have "calls (geocode_step e coords s) ! i = u"
    unfolding calls using i by (simp add: u [symmetric])
  moreover have "i < length (calls (geocode_step e coords s))"
    unfolding calls using i(1) by simp
  ultimately show ?thesis
    using v unfolding cache u assms(2) by auto
qed

section \<open>Running the pipeline again\<close>

lemma main_body_of_table:
  assumes "\<not> add_new e"
  shows "main_body e (start cf (Table True rows)) =
    (let s = geocode_step e rows (load_cache (start cf (Table True rows)));
         output_data = output_data_of (cache s) rows;
         s = s\<lparr>converted_coordinates_csv := Some output_data\<rparr>
     in case create_optimized_map output_data of
          Inl err \<Rightarrow> (Some err, s)
        | Inr m \<Rightarrow> (None, s\<lparr>geo_map_html := Some m\<rparr>))"
proof -
  have a: "add_coordinates e (start cf (Table True rows)) = (None, start cf (Table True rows))"
    using assms by (simp add: add_coordinates_def)
  have r: "read_coordinates (load_cache (start cf (Table True rows))) = Inr rows"
    by (simp add: read_coordinates_Inr load_cache_keeps start_def)
  show ?thesis
    by (simp add: main_body_def a r)
qed

lemma main_of_table_calls:
  assumes "\<not> add_new e"
  shows "calls (snd (main e (start cf (Table True rows)))) =
           calls (geocode_step e rows (load_cache (start cf (Table True rows))))"
  by (simp add: main_eq main_body_of_table [OF assms] Let_def calls_save_cache split: sum.splits)

lemma main_of_table_export:
  assumes "\<not> add_new e"
  shows "converted_coordinates_csv (snd (main e (start cf (Table True rows)))) =
           Some (output_data_of (cache (geocode_step e rows (load_cache (start cf (Table True rows))))) rows)"
  by (simp add: main_eq main_body_of_table [OF assms] Let_def save_cache_keeps split: sum.splits)




section \<open>The records of a run\<close>

lemma inverse_mercator_of_projection:
  "mercator_projection lat lon = Inr (px, py) \<Longrightarrow>
   inverse_mercator px py = (max (min lat 89.9) (- 89.9), lon)"
  using inverse_mercator_projection [of "max (min lat 89.9) (- 89.9)" lon]
  by (auto simp: mercator_projection_eq)

lemma output_data_of_Cons:
  "output_data_of c ((lat, lon) # coords) =
     (if - 90 \<le> fval lat \<and> fval lat \<le> 90 \<and> - 180 \<le> fval lon \<and> fval lon \<le> 180
      then \<lparr>Latitude = lat, Longitude = lon,
             X = R * radians (fval lon),
             Y = R * ln (tan (pi / 4 + radians (max (min (fval lat) 89.9) (- 89.9)) / 2)),
             Reversed_Lat = max (min (fval lat) 89.9) (- 89.9), Reversed_Lon = fval lon,
             Address = cache_get c (cache_key lat lon) ''Address lookup disabled''\<rparr>
           # output_data_of c coords
      else output_data_of c coords)"
proof -
  have "inverse_mercator (R * radians (fval lon))
          (R * ln (tan (pi / 4 + radians (max (min (fval lat) 89.9) (- 89.9)) / 2))) =
        (max (min (fval lat) 89.9) (- 89.9), fval lon)"
    by (rule inverse_mercator_of_projection [OF mercator_projection_eq])
  then show ?thesis
    by (simp add: mercator_projection_eq Let_def del: max_less_iff_conj min_less_iff_conj)
qed

lemma output_data_of_rows:
  "map (\<lambda>d. (Latitude d, Longitude d)) (output_data_of c coords) =
     filter (\<lambda>(lat, lon). - 90 \<le> fval lat \<and> fval lat \<le> 90 \<and> - 180 \<le> fval lon \<and> fval lon \<le> 180) coords"
proof (induction coords)
  case (Cons p coords)
  obtain lat lon where p: "p = (lat, lon)" by (cases p) auto
  show ?case unfolding p output_data_of_Cons using Cons.IH by simp
qed simp

lemma output_data_of_address:
  "d \<in> set (output_data_of c coords) \<Longrightarrow>
   Address d = cache_get c (cache_key (Latitude d) (Longitude d)) ''Address lookup disabled''"
proof (induction coords)
  case (Cons p coords)
  obtain lat lon where p: "p = (lat, lon)" by (cases p) auto
  show ?case using Cons unfolding p output_data_of_Cons by (auto split: if_splits)
qed simp

lemma output_data_of_valid:
  assumes "d \<in> set (output_data_of c coords)"
  shows "(Latitude d, Longitude d) \<in> set coords"
    and "- 90 \<le> fval (Latitude d) \<and> fval (Latitude d) \<le> 90 \<and>
         - 180 \<le> fval (Longitude d) \<and> fval (Longitude d) \<le> 180"
proof -
  have "(Latitude d, Longitude d) \<in> set (map (\<lambda>d. (Latitude d, Longitude d)) (output_data_of c coords))"
    using assms by (simp only: set_map) blast
  then have "(Latitude d, Longitude d) \<in> set (filter (\<lambda>(lat, lon). - 90 \<le> fval lat \<and> fval lat \<le> 90 \<and> - 180 \<le> fval lon \<and> fval lon \<le> 180) coords)"
    by (simp only: output_data_of_rows)
  then show "(Latitude d, Longitude d) \<in> set coords"
    and "- 90 \<le> fval (Latitude d) \<and> fval (Latitude d) \<le> 90 \<and>
         - 180 \<le> fval (Longitude d) \<and> fval (Longitude d) \<le> 180"
    by auto
qed

lemma main_of_table_csv:
  assumes "\<not> add_new e"
  shows "coordinates_csv (snd (main e (start cf (Table True rows)))) = Table True rows"
proof -
  have "coordinates_csv (start cf (Table True rows)) = Table True rows"
    by (simp add: start_def)
  then show ?thesis
    by (simp add: main_eq main_body_of_table [OF assms] Let_def save_cache_keeps geocode_step_keeps
          load_cache_keeps split: sum.splits)
qed

text \<open>
  Claim C10. With address lookup enabled, a row outside the valid ranges is still part of
  the deduplicated list handed to \<open>batch_geocode\<close>: unless a key of a row that rounds to
  the same pair is in the cache file, \<open>process_coord\<close> calls \<^verbatim>\<open>reverse\<close> on its rounded
  pair, and what the call answers (an address, nothing, or an exception) is stored in
  the cache under the key of the pair. The range check comes after, in the loop over the
  rows, and drops the row from the records.
\<close>

theorem invalid_rows_are_geocoded:
  assumes "main e (start cf csv) = (r, s')"
    and "converted_coordinates_csv s' = Some out"
    and "coordinates_csv s' = Table True rows"
    and "lookup e"
    and "(lat, lon) \<in> set rows"
    and "\<not> (- 90 \<le> fval lat \<and> fval lat \<le> 90) \<or> \<not> (- 180 \<le> fval lon \<and> fval lon \<le> 180)"
    and "\<forall>(lat', lon') \<in> set rows. rounded (lat', lon') = rounded (lat, lon) \<longrightarrow>
           (case cf of Snapshot m \<Rightarrow> m | Absent \<Rightarrow> Map.empty | Corrupt \<Rightarrow> Map.empty)
             (cache_key lat' lon') = None"
  shows "(\<exists>n<length (calls s').
            pair_eq (calls s' ! n) (round4 lat, round4 lon) \<and>
            cache s' (cache_key (fst (calls s' ! n)) (snd (calls s' ! n))) =
              Some (case service e n (calls s' ! n) of
                      Found address \<Rightarrow> address
                    | NotFound \<Rightarrow> ''Not found''
                    | Raised msg \<Rightarrow> ''Error: '' @ msg)) \<and>
         (\<forall>d \<in> set out. (Latitude d, Longitude d) \<noteq> (lat, lon))"
proof -
  from main_export [OF assms(1,2)] obtain s1 rows' where
    l: "cache (load_cache s1) = (case cf of Snapshot m \<Rightarrow> m | Absent \<Rightarrow> Map.empty | Corrupt \<Rightarrow> Map.empty)"
      "calls (load_cache s1) = []"
    and c: "cache s' = cache (geocode_step e rows' (load_cache s1))"
    and k: "calls s' = calls (geocode_step e rows' (load_cache s1))"
    and csv: "coordinates_csv s' = Table True rows'"
    and out: "out = output_data_of (cache s') rows'"
    by metis
  have rows: "rows' = rows" using csv assms(3) by simp
  note c = c [unfolded rows] and k = k [unfolded rows] and out = out [unfolded rows]
  obtain u where u: "u \<in> set (unique_coords (set_position e) rows)"
    "pair_eq u (round4 lat, round4 lon)"
    using unique_coords_has [OF assms(5)] by blast
  from unique_coords_from [OF u(1)] obtain lat' lon' where
    src: "(lat', lon') \<in> set rows" "u = (round4 lat', round4 lon')"
    by auto
  have "rounded (lat', lon') = rounded (lat, lon)"
    using u(2) by (simp add: src(2) pair_eq_rounded)
  with assms(7) src(1) have "cache (load_cache s1) (cache_key lat' lon') = None"
    unfolding l(1) by blast
  then have "cache (load_cache s1) (cache_key (fst u) (snd u)) = None"
    by (simp add: src(2) cache_key_round4)
  from geocode_step_request [OF assms(4) l(2) u(1) this] u(2)
  have 1: "\<exists>n<length (calls s').
            pair_eq (calls s' ! n) (round4 lat, round4 lon) \<and>
            cache s' (cache_key (fst (calls s' ! n)) (snd (calls s' ! n))) =
              Some (case service e n (calls s' ! n) of
                      Found address \<Rightarrow> address
                    | NotFound \<Rightarrow> ''Not found''
                    | Raised msg \<Rightarrow> ''Error: '' @ msg)"
    unfolding c k by auto
  have 2: "\<forall>d \<in> set out. (Latitude d, Longitude d) \<noteq> (lat, lon)"
  proof
    fix d assume "d \<in> set out"
    then have "- 90 \<le> fval (Latitude d) \<and> fval (Latitude d) \<le> 90 \<and>
         - 180 \<le> fval (Longitude d) \<and> fval (Longitude d) \<le> 180"
      unfolding out by (rule output_data_of_valid)
    with assms(6) show "(Latitude d, Longitude d) \<noteq> (lat, lon)" by auto
  qed
  from 1 2 show ?thesis ..
qed

text \<open>
  An instance: a row with longitude 200 and a valid row, no cache file. A request is sent
  for \<open>(40, 200)\<close> and its answer is cached, and only the valid row gets a record.
\<close>

theorem invalid_rows_are_geocoded_witness:
  "lookup \<lparr>add_new = False, entered = None, csv_append_ok = True, lookup = True,
        service = (\<lambda>n c. if fval (snd c) = 200 then Found ''1 Far Street''
                           else Found ''1 Main Street''),
        save_ok_batch = True, save_ok_exit = True, set_position = (\<lambda>c. if fval (snd c) = 200 then 1 else 0)\<rparr> \<and>
   (Num 40, Num 200) \<in> set [(Num 40, Num 200), (Num 40, Num (- 74))] \<and>
   \<not> (- 180 \<le> fval (Num 200) \<and> fval (Num 200) \<le> 180) \<and>
   (\<exists>n<length (calls (snd (main \<lparr>add_new = False, entered = None, csv_append_ok = True, lookup = True,
        service = (\<lambda>n c. if fval (snd c) = 200 then Found ''1 Far Street''
                           else Found ''1 Main Street''),
        save_ok_batch = True, save_ok_exit = True, set_position = (\<lambda>c. if fval (snd c) = 200 then 1 else 0)\<rparr>
      (start Absent (Table True [(Num 40, Num 200), (Num 40, Num (- 74))]))))).
      pair_eq (calls (snd (main \<lparr>add_new = False, entered = None, csv_append_ok = True, lookup = True,
        service = (\<lambda>n c. if fval (snd c) = 200 then Found ''1 Far Street''
                           else Found ''1 Main Street''),
        save_ok_batch = True, save_ok_exit = True, set_position = (\<lambda>c. if fval (snd c) = 200 then 1 else 0)\<rparr>
      (start Absent (Table True [(Num 40, Num 200), (Num 40, Num (- 74))])))) ! n) (round4 (Num 40), round4 (Num 200)) \<and>
      cache (snd (main \<lparr>add_new = False, entered = None, csv_append_ok = True, lookup = True,
        service = (\<lambda>n c. if fval (snd c) = 200 then Found ''1 Far Street''
                           else Found ''1 Main Street''),
        save_ok_batch = True, save_ok_exit = True, set_position = (\<lambda>c. if fval (snd c) = 200 then 1 else 0)\<rparr>
      (start Absent (Table True [(Num 40, Num 200), (Num 40, Num (- 74))])))) (cache_key (fst (calls (snd (main \<lparr>add_new = False, entered = None, csv_append_ok = True, lookup = True,
        service = (\<lambda>n c. if fval (snd c) = 200 then Found ''1 Far Street''
                           else Found ''1 Main Street''),
        save_ok_batch = True, save_ok_exit = True, set_position = (\<lambda>c. if fval (snd c) = 200 then 1 else 0)\<rparr>
      (start Absent (Table True [(Num 40, Num 200), (Num 40, Num (- 74))])))) ! n)) (snd (calls (snd (main \<lparr>add_new = False, entered = None, csv_append_ok = True, lookup = True,
        service = (\<lambda>n c. if fval (snd c) = 200 then Found ''1 Far Street''
                           else Found ''1 Main Street''),
        save_ok_batch = True, save_ok_exit = True, set_position = (\<lambda>c. if fval (snd c) = 200 then 1 else 0)\<rparr>
      (start Absent (Table True [(Num 40, Num 200), (Num 40, Num (- 74))])))) ! n))) =
        Some (case service \<lparr>add_new = False, entered = None, csv_append_ok = True, lookup = True,
        service = (\<lambda>n c. if fval (snd c) = 200 then Found ''1 Far Street''
                           else Found ''1 Main Street''),
        save_ok_batch = True, save_ok_exit = True, set_position = (\<lambda>c. if fval (snd c) = 200 then 1 else 0)\<rparr> n (calls (snd (main \<lparr>add_new = False, entered = None, csv_append_ok = True, lookup = True,
        service = (\<lambda>n c. if fval (snd c) = 200 then Found ''1 Far Street''
                           else Found ''1 Main Street''),
        save_ok_batch = True, save_ok_exit = True, set_position = (\<lambda>c. if fval (snd c) = 200 then 1 else 0)\<rparr>
      (start Absent (Table True [(Num 40, Num 200), (Num 40, Num (- 74))])))) ! n) of
                Found address \<Rightarrow> address
              | NotFound \<Rightarrow> ''Not found''
              | Raised msg \<Rightarrow> ''Error: '' @ msg)) \<and>
   (Num 40, Num 200) \<in> set (calls (snd (main \<lparr>add_new = False, entered = None, csv_append_ok = True, lookup = True,
        service = (\<lambda>n c. if fval (snd c) = 200 then Found ''1 Far Street''
                           else Found ''1 Main Street''),
        save_ok_batch = True, save_ok_exit = True, set_position = (\<lambda>c. if fval (snd c) = 200 then 1 else 0)\<rparr>
      (start Absent (Table True [(Num 40, Num 200), (Num 40, Num (- 74))]))))) \<and>
   cache (snd (main \<lparr>add_new = False, entered = None, csv_append_ok = True, lookup = True,
        service = (\<lambda>n c. if fval (snd c) = 200 then Found ''1 Far Street''
                           else Found ''1 Main Street''),
        save_ok_batch = True, save_ok_exit = True, set_position = (\<lambda>c. if fval (snd c) = 200 then 1 else 0)\<rparr>
      (start Absent (Table True [(Num 40, Num 200), (Num 40, Num (- 74))])))) ''40.0000,200.0000'' = Some ''1 Far Street'' \<and>
   map (\<lambda>d. (Latitude d, Longitude d)) (the (converted_coordinates_csv (snd (main \<lparr>add_new = False, entered = None, csv_append_ok = True, lookup = True,
        service = (\<lambda>n c. if fval (snd c) = 200 then Found ''1 Far Street''
                           else Found ''1 Main Street''),
        save_ok_batch = True, save_ok_exit = True, set_position = (\<lambda>c. if fval (snd c) = 200 then 1 else 0)\<rparr>
      (start Absent (Table True [(Num 40, Num 200), (Num 40, Num (- 74))])))))) =
     [(Num 40, Num (- 74))]"
proof -
  let ?e = "\<lparr>add_new = False, entered = None, csv_append_ok = True, lookup = True,
        service = (\<lambda>n c. if fval (snd c) = 200 then Found ''1 Far Street''
                           else Found ''1 Main Street''),
        save_ok_batch = True, save_ok_exit = True, set_position = (\<lambda>c. if fval (snd c) = 200 then 1 else 0)\<rparr>"
  let ?rows = "[(Num 40, Num 200), (Num 40, Num (- 74))]"
  let ?m = "main ?e (start Absent (Table True ?rows))"
  let ?out = "output_data_of (cache (geocode_step ?e ?rows (load_cache (start Absent (Table True ?rows))))) ?rows"
  have na: "\<not> add_new ?e" and lk: "lookup ?e" by simp_all
  have h1: "?m = (fst ?m, snd ?m)" by simp
  have h2: "converted_coordinates_csv (snd ?m) = Some ?out"
    by (rule main_of_table_export [OF na])
  have h3: "coordinates_csv (snd ?m) = Table True ?rows"
    by (rule main_of_table_csv [OF na])
  have h5: "(Num 40, Num 200) \<in> set ?rows" by simp
  have h6: "\<not> (- 90 \<le> fval (Num 40) \<and> fval (Num 40) \<le> 90) \<or>
            \<not> (- 180 \<le> fval (Num 200) \<and> fval (Num 200) \<le> 180)" by simp
  have h7: "\<forall>(lat', lon') \<in> set ?rows. rounded (lat', lon') = rounded (Num 40, Num 200) \<longrightarrow>
           (case Absent of Snapshot m \<Rightarrow> m | Absent \<Rightarrow> Map.empty | Corrupt \<Rightarrow> Map.empty)
             (cache_key lat' lon') = None" by simp
  have r: "round4 (Num 40) = Num 40" "round4 (Num 200) = Num 200"
    by (simp_all add: key_eval)
  have ck: "cache_key (Num 40) (Num 200) = ''40.0000,200.0000''"
    by (simp add: key_eval)
  have o: "map (\<lambda>d. (Latitude d, Longitude d)) (the (converted_coordinates_csv (snd ?m))) =
     [(Num 40, Num (- 74))]"
    unfolding h2 option.sel output_data_of_rows by simp
  from invalid_rows_are_geocoded [OF h1 h2 h3 lk h5 h6 h7]
  have t: "\<exists>n<length (calls (snd ?m)).
      pair_eq (calls (snd ?m) ! n) (round4 (Num 40), round4 (Num 200)) \<and>
      cache (snd ?m) (cache_key (fst (calls (snd ?m) ! n)) (snd (calls (snd ?m) ! n))) =
        Some (case service ?e n (calls (snd ?m) ! n) of
                Found address \<Rightarrow> address
              | NotFound \<Rightarrow> ''Not found''
              | Raised msg \<Rightarrow> ''Error: '' @ msg)"
    by blast
  then obtain n where n: "n < length (calls (snd ?m))"
    "pair_eq (calls (snd ?m) ! n) (Num 40, Num 200)"
    "cache (snd ?m) (cache_key (fst (calls (snd ?m) ! n)) (snd (calls (snd ?m) ! n))) =
        Some (case service ?e n (calls (snd ?m) ! n) of
                Found address \<Rightarrow> address
              | NotFound \<Rightarrow> ''Not found''
              | Raised msg \<Rightarrow> ''Error: '' @ msg)"
    unfolding r by blast
  have mem: "calls (snd ?m) ! n \<in> set (calls (snd ?m))"
    using n(1) by simp
  have "calls (snd ?m) = filter (\<lambda>(lat, lon). cache (load_cache (start Absent (Table True ?rows))) (cache_key lat lon) = None)
      (unique_coords (set_position ?e) ?rows)"
    unfolding main_of_table_calls [OF na] geocode_step_calls
    by (simp add: load_cache_def start_def)
  then have "set (calls (snd ?m)) \<subseteq> set (unique_coords_of ?rows [])"
    by (simp only: set_filter set_unique_coords) blast
  also have "unique_coords_of ?rows [] = [(Num 40, Num 200), (Num 40, Num (- 74))]"
    by (simp add: key_eval pair_eq_def py_eq_def)
  finally have "calls (snd ?m) ! n = (Num 40, Num 200) \<or> calls (snd ?m) ! n = (Num 40, Num (- 74))"
    using mem by auto
  with n(2) have eq: "calls (snd ?m) ! n = (Num 40, Num 200)"
    by (auto simp: pair_eq_def py_eq_def)
  have m1: "(Num 40, Num 200) \<in> set (calls (snd ?m))"
    using mem unfolding eq .
  have m2: "cache (snd ?m) ''40.0000,200.0000'' = Some ''1 Far Street''"
    using n(3) unfolding eq by (simp add: ck)
  from t m1 m2 o show ?thesis by simp
qed

section \<open>The address of a record\<close>

text \<open>
  Claim C5 says that a record's address is \<^verbatim>\<open>Address lookup disabled\<close> whenever lookup
  was not requested. The cache file is loaded in every run (line 230) and line 267 reads
  the cache first: with an address cached by an earlier run, the record gets that
  address although lookup is disabled.
\<close>

theorem address_without_lookup_counterexample:
  "\<not> lookup \<lparr>add_new = False, entered = None, csv_append_ok = True, lookup = False,
        service = (\<lambda>n c. NotFound), save_ok_batch = True, save_ok_exit = True,
        set_position = (\<lambda>c. 0)\<rparr> \<and>
   converted_coordinates_csv
     (snd (main \<lparr>add_new = False, entered = None, csv_append_ok = True, lookup = False,
             service = (\<lambda>n c. NotFound), save_ok_batch = True, save_ok_exit = True,
        set_position = (\<lambda>c. 0)\<rparr>
        (start (Snapshot [''40.0000,-74.0000'' \<mapsto> ''New York City Hall''])
           (Table True [(Num 40, Num (- 74))])))) =
   Some [\<lparr>Latitude = Num 40, Longitude = Num (- 74),
          X = R * radians (- 74), Y = R * ln (tan (pi / 4 + radians 40 / 2)),
          Reversed_Lat = 40, Reversed_Lon = - 74,
          Address = ''New York City Hall''\<rparr>]"
proof -
  have k: "cache_key (Num 40) (Num (- 74)) = ''40.0000,-74.0000''"
    by (simp add: key_eval)
  let ?e = "\<lparr>add_new = False, entered = None, csv_append_ok = True, lookup = False,
        service = (\<lambda>n c. NotFound), save_ok_batch = True, save_ok_exit = True,
        set_position = (\<lambda>c. 0)\<rparr>"
  let ?cf = "Snapshot [''40.0000,-74.0000'' \<mapsto> ''New York City Hall'']"
  let ?rows = "[(Num 40, Num (- 74))]"
  have na: "\<not> add_new ?e" by simp
  have c: "cache (geocode_step ?e ?rows (load_cache (start ?cf (Table True ?rows)))) =
      [''40.0000,-74.0000'' \<mapsto> ''New York City Hall'']"
    by (simp add: geocode_step_def load_cache_def start_def)
  show ?thesis
    unfolding main_of_table_export [OF na] c output_data_of_Cons k
    by (simp add: cache_get_def)
qed

text \<open>
  Claim C5, amended. The records are the rows that pass the range check, in order. When
  lookup was not requested, a record's address is the address the cache file holds for
  the coordinate's key, and \<^verbatim>\<open>Address lookup disabled\<close> if it holds none. When lookup
  was requested and the rows that round to the same pair as the record's coordinate have
  the same key, it is the address the cache file held for the key, or else the answer
  to the request of this run for that key.
\<close>

theorem enriched_record_address:
  assumes "main e (start cf csv) = (r, s')"
    and "converted_coordinates_csv s' = Some out"
    and "coordinates_csv s' = Table True rows"
    and "d \<in> set out"
  defines "key \<equiv> cache_key (Latitude d) (Longitude d)"
    and "loaded \<equiv> (case cf of Snapshot m \<Rightarrow> m | Absent \<Rightarrow> Map.empty | Corrupt \<Rightarrow> Map.empty)"
  shows "map (\<lambda>d. (Latitude d, Longitude d)) out =
           filter (\<lambda>(lat, lon). - 90 \<le> fval lat \<and> fval lat \<le> 90 \<and> - 180 \<le> fval lon \<and> fval lon \<le> 180) rows \<and>
         (\<not> lookup e \<longrightarrow>
            Address d = (case loaded key of Some a \<Rightarrow> a | None \<Rightarrow> ''Address lookup disabled'')) \<and>
         (lookup e \<and>
          (\<forall>(lat', lon') \<in> set rows.
             rounded (lat', lon') = rounded (Latitude d, Longitude d) \<longrightarrow> cache_key lat' lon' = key) \<longrightarrow>
            loaded key = Some (Address d) \<or>
            loaded key = None \<and>
            (\<exists>n<length (calls s').
               cache_key (fst (calls s' ! n)) (snd (calls s' ! n)) = key \<and>
               Address d = (case service e n (calls s' ! n) of
                              Found address \<Rightarrow> address
                            | NotFound \<Rightarrow> ''Not found''
                            | Raised msg \<Rightarrow> ''Error: '' @ msg)))"
proof -
  from main_export [OF assms(1,2)] obtain s1 rows' where
    l: "cache (load_cache s1) = loaded" "calls (load_cache s1) = []"
    and c: "cache s' = cache (geocode_step e rows' (load_cache s1))"
    and k: "calls s' = calls (geocode_step e rows' (load_cache s1))"
    and csv: "coordinates_csv s' = Table True rows'"
    and out: "out = output_data_of (cache s') rows'"
    unfolding loaded_def by metis
  have rows: "rows' = rows" using csv assms(3) by simp
  note c = c [unfolded rows] and k = k [unfolded rows] and out = out [unfolded rows]
  have 1: "map (\<lambda>d. (Latitude d, Longitude d)) out =
      filter (\<lambda>(lat, lon). - 90 \<le> fval lat \<and> fval lat \<le> 90 \<and> - 180 \<le> fval lon \<and> fval lon \<le> 180) rows"
    unfolding out by (rule output_data_of_rows)
  have addr: "Address d = cache_get (cache s') key ''Address lookup disabled''"
    using assms(4) unfolding out key_def by (rule output_data_of_address)
  have 2: "\<not> lookup e \<longrightarrow>
      Address d = (case loaded key of Some a \<Rightarrow> a | None \<Rightarrow> ''Address lookup disabled'')"
    using addr by (simp add: c geocode_step_cache l cache_get_def)
  have 3: "loaded key = Some (Address d) \<or>
        loaded key = None \<and>
        (\<exists>n<length (calls s').
           cache_key (fst (calls s' ! n)) (snd (calls s' ! n)) = key \<and>
           Address d = (case service e n (calls s' ! n) of
                          Found address \<Rightarrow> address
                        | NotFound \<Rightarrow> ''Not found''
                        | Raised msg \<Rightarrow> ''Error: '' @ msg))"
    if lk: "lookup e"
      and nc: "\<forall>(lat', lon') \<in> set rows.
        rounded (lat', lon') = rounded (Latitude d, Longitude d) \<longrightarrow> cache_key lat' lon' = key"
  proof -
    have row: "(Latitude d, Longitude d) \<in> set rows"
      using assms(4) unfolding out by (rule output_data_of_valid)
    obtain u where u: "u \<in> set (unique_coords (set_position e) rows)"
      "pair_eq u (round4 (Latitude d), round4 (Longitude d))"
      using unique_coords_has [OF row] by blast
    from unique_coords_from [OF u(1)] obtain lat' lon' where
      src: "(lat', lon') \<in> set rows" "u = (round4 lat', round4 lon')"
      by auto
    have "rounded (lat', lon') = rounded (Latitude d, Longitude d)"
      using u(2) by (simp add: src(2) pair_eq_rounded)
    with nc src(1) have "cache_key lat' lon' = key" by blast
    then have ku: "cache_key (fst u) (snd u) = key"
      by (simp add: src(2) cache_key_round4)
    show ?thesis
    proof (cases "loaded key")
      case (Some a)
      then have "cache s' key = Some a"
        using geocode_step_map_le [of "load_cache s1" e rows]
        by (simp add: c l map_le_def dom_def)
      with addr Some show ?thesis by (simp add: cache_get_def)
    next
      case None
      then have "cache (load_cache s1) (cache_key (fst u) (snd u)) = None"
        by (simp add: l ku)
      from geocode_step_request [OF lk l(2) u(1) this] obtain n where
        n: "n < length (calls s')" "calls s' ! n = u"
        "cache s' key = Some (case service e n u of
                     Found address \<Rightarrow> address
                   | NotFound \<Rightarrow> ''Not found''
                   | Raised msg \<Rightarrow> ''Error: '' @ msg)"
        unfolding c k ku by blast
      have "Address d = (case service e n (calls s' ! n) of
                     Found address \<Rightarrow> address
                   | NotFound \<Rightarrow> ''Not found''
                   | Raised msg \<Rightarrow> ''Error: '' @ msg)"
        using addr n(3) by (simp add: cache_get_def n(2))
      moreover have "cache_key (fst (calls s' ! n)) (snd (calls s' ! n)) = key"
        by (simp add: n(2) ku)
      ultimately show ?thesis using None n(1) by blast
    qed
  qed
  from 1 2 3 show ?thesis by blast
qed

text \<open>
  Two instances, both for the row \<open>(40, -74)\<close> and no cache file: with lookup disabled the
  record's address is \<^verbatim>\<open>Address lookup disabled\<close>; with lookup enabled it is the address
  the service found.
\<close>

theorem enriched_record_address_witness:
  "\<not> lookup \<lparr>add_new = False, entered = None, csv_append_ok = True, lookup = False,
        service = (\<lambda>n c. NotFound), save_ok_batch = True, save_ok_exit = True,
        set_position = (\<lambda>c. 0)\<rparr> \<and>
   map (\<lambda>d. (Latitude d, Longitude d)) (the (converted_coordinates_csv (snd (main \<lparr>add_new = False, entered = None, csv_append_ok = True, lookup = False,
        service = (\<lambda>n c. NotFound), save_ok_batch = True, save_ok_exit = True,
        set_position = (\<lambda>c. 0)\<rparr>
      (start Absent (Table True [(Num 40, Num (- 74))])))))) =
     [(Num 40, Num (- 74))] \<and>
   Address (hd (the (converted_coordinates_csv (snd (main \<lparr>add_new = False, entered = None, csv_append_ok = True, lookup = False,
        service = (\<lambda>n c. NotFound), save_ok_batch = True, save_ok_exit = True,
        set_position = (\<lambda>c. 0)\<rparr>
      (start Absent (Table True [(Num 40, Num (- 74))]))))))) = ''Address lookup disabled'' \<and>
   lookup \<lparr>add_new = False, entered = None, csv_append_ok = True, lookup = True,
        service = (\<lambda>n c. Found ''New York City Hall''), save_ok_batch = True,
        save_ok_exit = True, set_position = (\<lambda>c. 0)\<rparr> \<and>
   map (\<lambda>d. (Latitude d, Longitude d)) (the (converted_coordinates_csv (snd (main \<lparr>add_new = False, entered = None, csv_append_ok = True, lookup = True,
        service = (\<lambda>n c. Found ''New York City Hall''), save_ok_batch = True,
        save_ok_exit = True, set_position = (\<lambda>c. 0)\<rparr>
      (start Absent (Table True [(Num 40, Num (- 74))])))))) =
     [(Num 40, Num (- 74))] \<and>
   Address (hd (the (converted_coordinates_csv (snd (main \<lparr>add_new = False, entered = None, csv_append_ok = True, lookup = True,
        service = (\<lambda>n c. Found ''New York City Hall''), save_ok_batch = True,
        save_ok_exit = True, set_position = (\<lambda>c. 0)\<rparr>
      (start Absent (Table True [(Num 40, Num (- 74))]))))))) = ''New York City Hall''"
proof -
  let ?rows = "[(Num 40, Num (- 74))]"
  let ?a = "\<lparr>add_new = False, entered = None, csv_append_ok = True, lookup = False,
        service = (\<lambda>n c. NotFound), save_ok_batch = True, save_ok_exit = True,
        set_position = (\<lambda>c. 0)\<rparr>"
  let ?ma = "main ?a (start Absent (Table True ?rows))"
  let ?outa = "output_data_of (cache (geocode_step ?a ?rows (load_cache (start Absent (Table True ?rows))))) ?rows"
  have na: "\<not> add_new ?a" and nl: "\<not> lookup ?a" by simp_all
  have a1: "?ma = (fst ?ma, snd ?ma)" by simp
  have a2: "converted_coordinates_csv (snd ?ma) = Some ?outa"
    by (rule main_of_table_export [OF na])
  have a3: "coordinates_csv (snd ?ma) = Table True ?rows"
    by (rule main_of_table_csv [OF na])
  have oa: "map (\<lambda>d. (Latitude d, Longitude d)) ?outa = [(Num 40, Num (- 74))]"
    unfolding output_data_of_rows by simp
  then have "?outa \<noteq> []" by auto
  then have a4: "hd ?outa \<in> set ?outa" by simp
  from enriched_record_address [OF a1 a2 a3 a4] nl
  have ra: "Address (hd ?outa) = ''Address lookup disabled''"
    by simp
  let ?b = "\<lparr>add_new = False, entered = None, csv_append_ok = True, lookup = True,
        service = (\<lambda>n c. Found ''New York City Hall''), save_ok_batch = True,
        save_ok_exit = True, set_position = (\<lambda>c. 0)\<rparr>"
  let ?mb = "main ?b (start Absent (Table True ?rows))"
  let ?outb = "output_data_of (cache (geocode_step ?b ?rows (load_cache (start Absent (Table True ?rows))))) ?rows"
  have nb: "\<not> add_new ?b" and lb: "lookup ?b" by simp_all
  have b1: "?mb = (fst ?mb, snd ?mb)" by simp
  have b2: "converted_coordinates_csv (snd ?mb) = Some ?outb"
    by (rule main_of_table_export [OF nb])
  have b3: "coordinates_csv (snd ?mb) = Table True ?rows"
    by (rule main_of_table_csv [OF nb])
  have ob: "map (\<lambda>d. (Latitude d, Longitude d)) ?outb = [(Num 40, Num (- 74))]"
    unfolding output_data_of_rows by simp
  then have neb: "?outb \<noteq> []" by auto
  then have b4: "hd ?outb \<in> set ?outb" by simp
  have db: "Latitude (hd ?outb) = Num 40" "Longitude (hd ?outb) = Num (- 74)"
    using ob neb by (cases ?outb; simp)+
  have b5: "\<forall>(lat', lon') \<in> set ?rows.
      rounded (lat', lon') = rounded (Latitude (hd ?outb), Longitude (hd ?outb)) \<longrightarrow>
      cache_key lat' lon' = cache_key (Latitude (hd ?outb)) (Longitude (hd ?outb))"
    unfolding db by simp
  from enriched_record_address [OF b1 b2 b3 b4] lb b5
  have rb: "Address (hd ?outb) = ''New York City Hall''"
    by auto
  from oa ra ob rb show ?thesis
    unfolding a2 b2 option.sel by simp
qed

section \<open>Fatal errors and the final save\<close>

lemma main_flush:
  "save_ok_exit e \<Longrightarrow> geo_cache_json (snd (main e s)) = Snapshot (cache (snd (main e s)))"
  by (simp add: main_eq save_cache_def)

lemma output_data_of_Nil_iff:
  "output_data_of c rows = [] \<longleftrightarrow>
   filter (\<lambda>(lat, lon). - 90 \<le> fval lat \<and> fval lat \<le> 90 \<and> - 180 \<le> fval lon \<and> fval lon \<le> 180) rows = []"
  using output_data_of_rows [of c rows] by (metis map_is_Nil_conv)

lemma main_result:
  assumes "main e (start cf csv) = (r, s')"
  shows "r = Some (ValueError ''Failed to save coordinates'') \<or>
         (case coordinates_csv s' of
            NoFile \<Rightarrow>
              r = Some (ValueError (''Coordinates file not found. Please create '' @ [CHR 0x27] @
                     ''coordinates.csv'' @ [CHR 0x27] @ '' or use interactive input''))
          | Table h rows \<Rightarrow>
              if \<not> h then r = Some (ValueError ''Latitude/Longitude columns not found'')
              else r = (if filter (\<lambda>(lat, lon). - 90 \<le> fval lat \<and> fval lat \<le> 90 \<and>
                                     - 180 \<le> fval lon \<and> fval lon \<le> 180) rows = []
                        then Some (ZeroDivisionError ''division by zero'') else None))"
proof -
  let ?s0 = "start cf csv"
  have r: "r = fst (main_body e ?s0)"
    and csv: "coordinates_csv s' = coordinates_csv (snd (main_body e ?s0))"
    using assms by (auto simp: main_eq save_cache_keeps)
  obtain a s1 where a: "add_coordinates e ?s0 = (a, s1)"
    by (cases "add_coordinates e ?s0") auto
  show ?thesis
  proof (cases a)
    case (Some err)
    then have "r = Some (ValueError ''Failed to save coordinates'')"
      using a add_coordinates_error(1) [of e ?s0 err s1] by (simp add: r main_body_def)
    then show ?thesis by simp
  next
    case None
    note a = a [unfolded None]
    let ?s2 = "load_cache s1"
    show ?thesis
    proof (cases "read_coordinates ?s2")
      case (Inl err)
      then have b: "main_body e ?s0 = (Some err, ?s2)"
        by (simp add: main_body_def a)
      show ?thesis
        using Inl unfolding r csv b
        by (auto simp: read_coordinates_def load_cache_keeps split: csv_file.splits if_splits)
    next
      case (Inr rows)
      let ?s3 = "geocode_step e rows ?s2"
      let ?out = "output_data_of (cache ?s3) rows"
      have t: "coordinates_csv s1 = Table True rows"
        using Inr by (simp add: read_coordinates_Inr load_cache_keeps)
      have b: "main_body e ?s0 =
        (case create_optimized_map ?out of
           Inl err \<Rightarrow> (Some err, ?s3\<lparr>converted_coordinates_csv := Some ?out\<rparr>)
         | Inr m \<Rightarrow> (None, ?s3\<lparr>converted_coordinates_csv := Some ?out, geo_map_html := Some m\<rparr>))"
        by (simp add: main_body_def a Inr Let_def)
      have "coordinates_csv s' = Table True rows"
        unfolding csv b by (simp add: geocode_step_keeps load_cache_keeps t split: sum.splits)
      moreover have "r = (if ?out = [] then Some (ZeroDivisionError ''division by zero'') else None)"
        unfolding r b by (simp add: create_optimized_map_def)
      ultimately show ?thesis
        by (simp only: output_data_of_Nil_iff) simp
    qed
  qed
qed

text \<open>
  Claim C8. A run that finds no coordinates file, or no latitude and longitude columns,
  or no row that passes the range check ends with an exception, which line 296 prints
  after \<^verbatim>\<open>ERROR:\<close>; for the last case it is the division by zero in
  \<^verbatim>\<open>create_optimized_map\<close>. (A run can also stop earlier, when the entered coordinates
  cannot be written.) On every path the \<^verbatim>\<open>finally\<close> clause saves the cache: when the
  file can be written, it holds the in-memory cache at the end of the run.
\<close>

theorem fatal_errors_and_flush:
  assumes "main e (start cf csv) = (r, s')"
  shows "(coordinates_csv s' = NoFile \<longrightarrow>
            r = Some (ValueError ''Failed to save coordinates'') \<or>
            r = Some (ValueError (''Coordinates file not found. Please create '' @ [CHR 0x27] @
                   ''coordinates.csv'' @ [CHR 0x27] @ '' or use interactive input''))) \<and>
         (\<forall>rows. coordinates_csv s' = Table False rows \<longrightarrow>
            r = Some (ValueError ''Failed to save coordinates'') \<or>
            r = Some (ValueError ''Latitude/Longitude columns not found'')) \<and>
         (\<forall>rows. coordinates_csv s' = Table True rows \<and>
            filter (\<lambda>(lat, lon). - 90 \<le> fval lat \<and> fval lat \<le> 90 \<and>
                                - 180 \<le> fval lon \<and> fval lon \<le> 180) rows = [] \<longrightarrow>
            r = Some (ValueError ''Failed to save coordinates'') \<or>
            r = Some (ZeroDivisionError ''division by zero'')) \<and>
         (save_ok_exit e \<longrightarrow> geo_cache_json s' = Snapshot (cache s'))"
proof -
  have "save_ok_exit e \<longrightarrow> geo_cache_json s' = Snapshot (cache s')"
    using main_flush [of e "start cf csv"] assms by simp
  then show ?thesis
    using main_result [OF assms] by (auto split: csv_file.splits if_splits)
qed

text \<open>
  Two instances: a file whose only row has latitude 100, and no file at all.
\<close>

theorem fatal_errors_and_flush_witness:
  "save_ok_exit \<lparr>add_new = False, entered = None, csv_append_ok = True, lookup = False,
        service = (\<lambda>n c. NotFound), save_ok_batch = True, save_ok_exit = True,
        set_position = (\<lambda>c. 0)\<rparr> \<and>
   main \<lparr>add_new = False, entered = None, csv_append_ok = True, lookup = False,
        service = (\<lambda>n c. NotFound), save_ok_batch = True, save_ok_exit = True,
        set_position = (\<lambda>c. 0)\<rparr> (start (Snapshot [''1.0000,2.0000'' \<mapsto> ''1 Main Street'']) (Table True [(Num 100, Num 0)])) =
     (Some (ZeroDivisionError ''division by zero''),
      \<lparr>cache = [''1.0000,2.0000'' \<mapsto> ''1 Main Street''],
       geo_cache_json = Snapshot [''1.0000,2.0000'' \<mapsto> ''1 Main Street''],
       coordinates_csv = Table True [(Num 100, Num 0)],
       converted_coordinates_csv = Some [], geo_map_html = None, calls = []\<rparr>) \<and>
   fst (main \<lparr>add_new = False, entered = None, csv_append_ok = True, lookup = False,
        service = (\<lambda>n c. NotFound), save_ok_batch = True, save_ok_exit = True,
        set_position = (\<lambda>c. 0)\<rparr> (start Absent NoFile)) =
     Some (ValueError (''Coordinates file not found. Please create '' @ [CHR 0x27] @
             ''coordinates.csv'' @ [CHR 0x27] @ '' or use interactive input'')) \<and>
   geo_cache_json (snd (main \<lparr>add_new = False, entered = None, csv_append_ok = True, lookup = False,
        service = (\<lambda>n c. NotFound), save_ok_batch = True, save_ok_exit = True,
        set_position = (\<lambda>c. 0)\<rparr> (start Absent NoFile))) = Snapshot Map.empty"
proof -
  let ?e = "\<lparr>add_new = False, entered = None, csv_append_ok = True, lookup = False,
        service = (\<lambda>n c. NotFound), save_ok_batch = True, save_ok_exit = True,
        set_position = (\<lambda>c. 0)\<rparr>"
  let ?s = "start (Snapshot [''1.0000,2.0000'' \<mapsto> ''1 Main Street'']) (Table True [(Num 100, Num 0)])"
  have na: "\<not> add_new ?e" and ok: "save_ok_exit ?e" by simp_all
  have m1: "main ?e ?s =
     (Some (ZeroDivisionError ''division by zero''),
      \<lparr>cache = [''1.0000,2.0000'' \<mapsto> ''1 Main Street''],
       geo_cache_json = Snapshot [''1.0000,2.0000'' \<mapsto> ''1 Main Street''],
       coordinates_csv = Table True [(Num 100, Num 0)],
       converted_coordinates_csv = Some [], geo_map_html = None, calls = []\<rparr>)"
    unfolding main_eq main_body_of_table [OF na]
    by (simp add: geocode_step_def load_cache_def start_def create_optimized_map_def save_cache_def)
  have h: "main ?e (start Absent NoFile) = (fst (main ?e (start Absent NoFile)), snd (main ?e (start Absent NoFile)))"
    by simp
  have csv: "coordinates_csv (snd (main ?e (start Absent NoFile))) = NoFile"
    by (simp add: main_eq main_body_def add_coordinates_def load_cache_def read_coordinates_def
          start_def save_cache_def)
  have nf: "fst (main ?e (start Absent NoFile)) \<noteq> Some (ValueError ''Failed to save coordinates'')"
    by (simp add: main_eq main_body_def add_coordinates_def load_cache_def read_coordinates_def
          start_def)
  have c: "cache (snd (main ?e (start Absent NoFile))) = Map.empty"
    by (simp add: main_eq main_body_def add_coordinates_def load_cache_def read_coordinates_def
          start_def save_cache_def)
  from fatal_errors_and_flush [OF h] csv nf ok c
  have "fst (main ?e (start Absent NoFile)) =
     Some (ValueError (''Coordinates file not found. Please create '' @ [CHR 0x27] @
             ''coordinates.csv'' @ [CHR 0x27] @ '' or use interactive input''))"
    and "geo_cache_json (snd (main ?e (start Absent NoFile))) = Snapshot Map.empty"
    by auto
  with m1 ok show ?thesis by simp
qed

section \<open>The cached entries\<close>

lemma main_keeps_loaded:
  assumes "add_coordinates e s = (None, s1)"
  shows "cache (load_cache s1) \<subseteq>\<^sub>m cache (snd (main e s))"
proof (cases "read_coordinates (load_cache s1)")
  case (Inl err)
  then have "main_body e s = (Some err, load_cache s1)"
    by (simp add: main_body_def assms)
  then show ?thesis by (simp add: main_eq cache_save_cache)
next
  case (Inr rows)
  let ?s3 = "geocode_step e rows (load_cache s1)"
  have "cache (snd (main_body e s)) = cache ?s3"
    by (simp add: main_body_def assms Inr Let_def split: sum.splits)
  then show ?thesis by (simp add: main_eq cache_save_cache geocode_step_map_le)
qed

text \<open>
  In memory the dictionary only grows: the resolution loop adds keys and overwrites only
  the keys it resolves, \<open>batch_geocode\<close> changes no entry that was there, \<open>save_cache\<close>
  does not touch the dictionary, and a run that gets to load the cache file still has
  every loaded entry at its end.
\<close>

lemma cache_dict_only_grows:
  "dom (cache s) \<subseteq> dom (cache (resolve_all reverse new s)) \<and>
   (\<forall>k. k \<notin> (\<lambda>(lat, lon, key). key) ` set new \<longrightarrow> cache (resolve_all reverse new s) k = cache s k) \<and>
   cache s \<subseteq>\<^sub>m cache (snd (batch_geocode reverse ok coordinates s)) \<and>
   cache s \<subseteq>\<^sub>m cache (geocode_step e coords s) \<and>
   cache (save_cache ok s) = cache s \<and>
   (fst (add_coordinates e (start cf csv)) = None \<longrightarrow>
      cache (load_cache (start cf csv)) \<subseteq>\<^sub>m cache (snd (main e (start cf csv))))"
proof -
  have 1: "dom (cache s) \<subseteq> dom (cache (resolve_all reverse new s))"
    by (simp add: resolve_all_dom)
  have 2: "\<forall>k. k \<notin> (\<lambda>(lat, lon, key). key) ` set new \<longrightarrow> cache (resolve_all reverse new s) k = cache s k"
    by (simp add: resolve_all_other)
  have 7: "cache (load_cache (start cf csv)) \<subseteq>\<^sub>m cache (snd (main e (start cf csv)))"
    if none: "fst (add_coordinates e (start cf csv)) = None"
  proof -
    obtain s1 where a: "add_coordinates e (start cf csv) = (None, s1)"
      using none by (cases "add_coordinates e (start cf csv)") auto
    have "cache (load_cache s1) = cache (load_cache (start cf csv))"
      using add_coordinates_keeps(1,2) [OF a] by (simp add: cache_load_cache split: cache_file.splits)
    with main_keeps_loaded [OF a] show ?thesis by simp
  qed
  from 1 2 7 show ?thesis
    by (simp add: batch_geocode_map_le geocode_step_map_le cache_save_cache)
qed

text \<open>
  Claim C9 says that within a run no cached entry is removed. The entries are lost in a
  run that cannot write the entered coordinates: line 224 raises before \<^verbatim>\<open>load_cache\<close>
  is called at line 230, and the \<^verbatim>\<open>finally\<close> clause of line 299 then saves the dictionary,
  which is still empty, over \<^verbatim>\<open>geo_cache.json\<close>. Here the cache file holds one address
  before the run and none after it.
\<close>

theorem cache_file_emptied_on_abort:
  "geo_cache_json (start (Snapshot [''40.0000,-74.0000'' \<mapsto> ''New York City Hall''])
      (Table True [(Num 40, Num (- 74))])) =
     Snapshot [''40.0000,-74.0000'' \<mapsto> ''New York City Hall''] \<and>
   main \<lparr>add_new = True, entered = Some [(Num 1, Num 2)], csv_append_ok = False, lookup = True,
          service = (\<lambda>n c. NotFound), save_ok_batch = True, save_ok_exit = True,
          set_position = (\<lambda>c. 0)\<rparr>
     (start (Snapshot [''40.0000,-74.0000'' \<mapsto> ''New York City Hall''])
        (Table True [(Num 40, Num (- 74))])) =
     (Some (ValueError ''Failed to save coordinates''),
      \<lparr>cache = Map.empty, geo_cache_json = Snapshot Map.empty,
       coordinates_csv = Table True [(Num 40, Num (- 74))],
       converted_coordinates_csv = None, geo_map_html = None, calls = []\<rparr>)"
  by (simp add: main_def main_body_def add_coordinates_def save_to_csv_def save_cache_def start_def)

section \<open>The sign of a rounded zero\<close>

text \<open>
  Claim C3 says that two coordinates have the same cache key if and only if their
  latitudes, and their longitudes, round to equal values. The latitudes \<open>-0.00001\<close> and
  \<open>0.00001\<close> round to \<^verbatim>\<open>-0.0\<close> and \<^verbatim>\<open>0.0\<close>, which are equal, and the keys differ. In a
  run with lookup enabled the set of line 250 keeps one of the two rounded pairs, one
  request is sent, and the row whose key was not the one resolved gets
  \<^verbatim>\<open>Address lookup disabled\<close>.
\<close>

theorem cache_key_negative_zero:
  "py_eq (round4 (Num (- 0.00001))) (round4 (Num 0.00001)) \<and>
   py_eq (round4 (Num 0)) (round4 (Num 0)) \<and>
   cache_key (Num (- 0.00001)) (Num 0) = ''-0.0000,0.0000'' \<and>
   cache_key (Num 0.00001) (Num 0) = ''0.0000,0.0000'' \<and>
   cache_key (Num (- 0.00001)) (Num 0) \<noteq> cache_key (Num 0.00001) (Num 0) \<and>
   calls (snd (main \<lparr>add_new = False, entered = None, csv_append_ok = True, lookup = True,
                   service = (\<lambda>n c. Found ''Null Island''), save_ok_batch = True,
                   save_ok_exit = True,
        set_position = (\<lambda>c. 0)\<rparr>
            (start Absent (Table True [(Num (- 0.00001), Num 0), (Num 0.00001, Num 0)])))) =
     [(NegZero, Num 0)] \<and>
   map Address (the (converted_coordinates_csv
     (snd (main \<lparr>add_new = False, entered = None, csv_append_ok = True, lookup = True,
              service = (\<lambda>n c. Found ''Null Island''), save_ok_batch = True,
              save_ok_exit = True,
        set_position = (\<lambda>c. 0)\<rparr>
        (start Absent (Table True [(Num (- 0.00001), Num 0), (Num 0.00001, Num 0)])))))) =
     [''Null Island'', ''Address lookup disabled'']"
proof -
  let ?e = "\<lparr>add_new = False, entered = None, csv_append_ok = True, lookup = True,
        service = (\<lambda>n c. Found ''Null Island''), save_ok_batch = True, save_ok_exit = True,
        set_position = (\<lambda>c. 0)\<rparr>"
  let ?rows = "[(Num (- 0.00001), Num 0), (Num 0.00001, Num 0)]"
  let ?s = "load_cache (start Absent (Table True ?rows))"
  have na: "\<not> add_new ?e" and lk: "lookup ?e" by simp_all
  have k1: "cache_key (Num (- 0.00001)) (Num 0) = ''-0.0000,0.0000''"
    and k2: "cache_key (Num 0.00001) (Num 0) = ''0.0000,0.0000''"
    and k3: "cache_key NegZero (Num 0) = ''-0.0000,0.0000''"
    by (simp_all add: key_eval)
  have e: "py_eq (round4 (Num (- 0.00001))) (round4 (Num 0.00001))"
    "py_eq (round4 (Num 0)) (round4 (Num 0))"
    by (simp_all add: py_eq_def key_eval)
  have u: "unique_coords (set_position ?e) ?rows = [(NegZero, Num 0)]"
    by (simp add: unique_coords_def key_eval pair_eq_def py_eq_def)
  have l: "cache ?s = Map.empty" "calls ?s = []"
    by (simp_all add: load_cache_def start_def)
  have n: "new_coords_of (cache ?s) [(NegZero, Num 0)] = [(NegZero, Num 0, ''-0.0000,0.0000'')]"
    unfolding l by (simp add: k3)
  have c: "calls (snd (main ?e (start Absent (Table True ?rows)))) = [(NegZero, Num 0)]"
    unfolding main_of_table_calls [OF na] geocode_step_calls u l
    by (simp add: k3)
  have g: "cache (geocode_step ?e ?rows ?s) =
      cache (resolve_all (service ?e) [(NegZero, Num 0, ''-0.0000,0.0000'')] ?s)"
    unfolding geocode_step_cache(1) [OF lk] batch_geocode_cache u n ..
  have g': "cache (geocode_step ?e ?rows ?s) = [''-0.0000,0.0000'' \<mapsto> ''Null Island'']"
    unfolding g by (simp add: process_coord_eq load_cache_def start_def)
  have a: "map Address (the (converted_coordinates_csv (snd (main ?e (start Absent (Table True ?rows)))))) =
      [''Null Island'', ''Address lookup disabled'']"
    unfolding main_of_table_export [OF na] option.sel g' output_data_of_Cons k1 k2
    by (simp add: cache_get_def)
  from k1 k2 e c a show ?thesis by simp
qed

end
